theory Spec2Isabelle
  imports Main
begin

section \<open>Outcomes of a call\<close>

text \<open>
  A function of \<^verbatim>\<open>pkg/config/config.go\<close> ends in one of four ways: it returns its
  value, it returns an \<^verbatim>\<open>error\<close>, it calls \<^verbatim>\<open>logger.Fatalf\<close>, or the Go runtime
  panics (a nil pointer is dereferenced, a slice is indexed out of range). The last three
  are the constructors of \<open>failure\<close>; a result is \<open>failure + 'a\<close>.

  The text of a message is not modelled. An error value records which
  \<^verbatim>\<open>fmt.Errorf\<close>/\<^verbatim>\<open>errors.New\<close> call produced it and the values its format
  string is given, the configuration path \<^verbatim>\<open>prefix\<close> apart, which is only ever
  printed. \<^verbatim>\<open>logger.Infof\<close>, \<^verbatim>\<open>Warnf\<close> and \<^verbatim>\<open>Errorf\<close> only write to the log and
  are left out; a dereference among their arguments is kept where it can fail.

  Modelled from the spec: package \<^verbatim>\<open>logger\<close> is not among the sources. The spec
  says of the source that some malformed fields abort and others are merely logged;
  \<^verbatim>\<open>logger.Fatalf\<close> is taken to write its message and end the process, as
  \<^verbatim>\<open>log.Fatalf\<close> of the standard library does: nothing after it runs, and the caller
  gets no value.
\<close>

datatype panic = NilDereference | IndexOutOfRange

datatype error =
    ErrExternal string
  | ErrVersion
  | ErrNoClientSettings
  | ErrNoFiles
  | ErrNoSpace
  | ErrNoConnection
  | ErrNoFilePath
  | ErrFileNotExist string
  | ErrFileType string
  | ErrEmptyDelimiter
  | ErrNoFileSchema
  | ErrSchemaType string
  | ErrVIDFunction string
  | ErrIndex int
  | ErrNoEdgeName
  | ErrPropType string
  | ErrNoTagName
  | ErrPropIndexOutOfRange int nat "string list"

datatype fatal =
    FatalPropIndex int string string
  | FatalTagFormat error

datatype failure = Error error | Fatal fatal | Panic panic

text \<open>\<^verbatim>\<open>*p\<close> for a pointer \<open>p\<close>, and \<^verbatim>\<open>xs[i]\<close> for a slice and a Go \<^verbatim>\<open>int\<close>.\<close>

definition deref :: "'a option \<Rightarrow> failure + 'a" where
  "deref p = (case p of None \<Rightarrow> Inl (Panic NilDereference) | Some x \<Rightarrow> Inr x)"

definition index :: "'a list \<Rightarrow> int \<Rightarrow> failure + 'a" where
  "index xs i =
     (if 0 \<le> i \<and> i < int (length xs) then Inr (xs ! nat i)
      else Inl (Panic IndexOutOfRange))"

text \<open>Sequencing: the first failure ends the call.\<close>

definition andThen :: "failure + 'a \<Rightarrow> ('a \<Rightarrow> failure + 'b) \<Rightarrow> failure + 'b" where
  "andThen r k = (case r of Inl f \<Rightarrow> Inl f | Inr x \<Rightarrow> k x)"

section \<open>The standard library's string functions\<close>

text \<open>
  A Go string is a sequence of bytes, here a \<open>string\<close>; a rune is a code point, here a
  \<open>nat\<close>. The functions below are those of packages \<^verbatim>\<open>unicode/utf8\<close>,
  \<^verbatim>\<open>unicode\<close>, \<^verbatim>\<open>strings\<close>, \<^verbatim>\<open>strconv\<close> and \<^verbatim>\<open>fmt\<close> that the file
  calls. Bit operations on bytes are written as arithmetic: \<^verbatim>\<open>x & 0x3F\<close> is
  \<open>x mod 64\<close>, \<^verbatim>\<open>x << 6\<close> is \<open>x * 64\<close>, \<^verbatim>\<open>x >> 4\<close> is \<open>x div 16\<close>, and
  \<^verbatim>\<open>|\<close> of a tag byte and the bits below it is \<open>+\<close>.

  Three things depend on the release of Go that builds the importer and are parameters:
  the case table of \<^verbatim>\<open>unicode.ToLower\<close> above ASCII, the tables of
  \<^verbatim>\<open>strconv.IsPrint\<close> above Latin-1 (both follow the version of Unicode), and the
  escape that \<^verbatim>\<open>strconv.Quote\<close> writes for the rune 0x7F (\<^verbatim>\<open>\u007f\<close> before
  Go 1.20, \<^verbatim>\<open>\x7f\<close> from then on; the README asks for Go 1.13 or later).
\<close>

record release =
  unicode_ToLower_table :: "nat \<Rightarrow> nat"
  strconv_isPrint_table :: "nat \<Rightarrow> bool"
  strconv_escapeDEL :: string

definition RuneError :: nat where
  "RuneError = 0xFFFD"

text \<open>
  \<^verbatim>\<open>utf8.DecodeRuneInString\<close>: the first rune of \<open>s\<close> and the number of bytes it
  takes; \<open>(RuneError, 1)\<close> for a byte that starts no well-formed encoding.
  \<open>acceptRange\<close> gives the bounds of the second byte, which exclude the encodings
  that are too long, the surrogates and the code points beyond 0x10FFFF.
\<close>

definition acceptRange :: "nat \<Rightarrow> nat \<times> nat" where
  "acceptRange s0 =
     (if s0 = 0xE0 then (0xA0, 0xBF)
      else if s0 = 0xED then (0x80, 0x9F)
      else if s0 = 0xF0 then (0x90, 0xBF)
      else if s0 = 0xF4 then (0x80, 0x8F)
      else (0x80, 0xBF))"

definition utf8_DecodeRuneInString :: "string \<Rightarrow> nat \<times> nat" where
  "utf8_DecodeRuneInString s =
     (let n = length s; byte = (\<lambda>k. (of_char (s ! k) :: nat)) in
      if n < 1 then (RuneError, 0)
      else
        (let s0 = byte 0 in
         if s0 < 0x80 then (s0, 1)
         else if s0 < 0xC2 \<or> 0xF4 < s0 then (RuneError, 1)
         else
           (let sz = (if s0 < 0xE0 then 2 else if s0 < 0xF0 then 3 else 4 :: nat);
                lo = fst (acceptRange s0); hi = snd (acceptRange s0) in
            if n < sz then (RuneError, 1)
            else
              (let s1 = byte 1 in
               if s1 < lo \<or> hi < s1 then (RuneError, 1)
               else if sz \<le> 2 then ((s0 mod 32) * 64 + s1 mod 64, 2)
               else
                 (let s2 = byte 2 in
                  if s2 < 0x80 \<or> 0xBF < s2 then (RuneError, 1)
                  else if sz \<le> 3
                  then ((s0 mod 16) * 4096 + (s1 mod 64) * 64 + s2 mod 64, 3)
                  else
                    (let s3 = byte 3 in
                     if s3 < 0x80 \<or> 0xBF < s3 then (RuneError, 1)
                     else ((s0 mod 8) * 262144 + (s1 mod 64) * 4096
                           + (s2 mod 64) * 64 + s3 mod 64, 4)))))))"

text \<open>
  \<^verbatim>\<open>utf8.EncodeRune\<close>, which \<^verbatim>\<open>strings.Builder.WriteRune\<close> and
  \<^verbatim>\<open>utf8.AppendRune\<close> apply: a surrogate or a rune beyond 0x10FFFF is written as
  \<open>RuneError\<close>.
\<close>

definition utf8_EncodeRune :: "nat \<Rightarrow> string" where
  "utf8_EncodeRune r =
     (if r \<le> 0x7F then [char_of r]
      else if r \<le> 0x7FF then [char_of (0xC0 + r div 64), char_of (0x80 + r mod 64)]
      else
        (let r = (if 0x10FFFF < r \<or> (0xD800 \<le> r \<and> r \<le> 0xDFFF) then RuneError else r) in
         if r \<le> 0xFFFF
         then [char_of (0xE0 + r div 4096), char_of (0x80 + (r div 64) mod 64),
               char_of (0x80 + r mod 64)]
         else [char_of (0xF0 + r div 262144), char_of (0x80 + (r div 4096) mod 64),
               char_of (0x80 + (r div 64) mod 64), char_of (0x80 + r mod 64)]))"

text \<open>
  \<^verbatim>\<open>strings.Map\<close>: the runes of the string, as \<^verbatim>\<open>range\<close> decodes them, each
  mapped and written again. The source copies the runes that the mapping leaves as they
  are, which for a well-formed encoding is the same as writing the rune again; a byte
  that decodes to \<open>RuneError\<close> with width 1 is never copied. The mappings of this
  file return no negative rune, which \<^verbatim>\<open>strings.Map\<close> would drop.
\<close>

function strings_Map :: "(nat \<Rightarrow> nat) \<Rightarrow> string \<Rightarrow> string" where
  "strings_Map mapping [] = []"
| "strings_Map mapping (c # s) =
     utf8_EncodeRune (mapping (fst (utf8_DecodeRuneInString (c # s))))
     @ strings_Map mapping (drop (snd (utf8_DecodeRuneInString (c # s))) (c # s))"
  by pat_completeness auto
termination
proof (relation "measure (\<lambda>(mapping, s). length s)")
  show "wf (measure (\<lambda>(mapping :: nat \<Rightarrow> nat, s :: string). length s))"
    by simp
next
  fix mapping :: "nat \<Rightarrow> nat" and c :: char and s :: string
  have "0 < snd (utf8_DecodeRuneInString (c # s))"
    by (simp add: utf8_DecodeRuneInString_def Let_def)
  then show "((mapping, drop (snd (utf8_DecodeRuneInString (c # s))) (c # s)), mapping, c # s)
             \<in> measure (\<lambda>(mapping, s). length s)"
    by simp
qed

text \<open>
  \<^verbatim>\<open>unicode.ToLower\<close> and \<^verbatim>\<open>strings.ToLower\<close>. The latter lowers a string of
  ASCII bytes byte by byte, and hands any other string to \<^verbatim>\<open>strings.Map\<close>.
\<close>

definition unicode_ToLower :: "release \<Rightarrow> nat \<Rightarrow> nat" where
  "unicode_ToLower g r =
     (if r \<le> 0x7F then (if 65 \<le> r \<and> r \<le> 90 then r + 32 else r)
      else unicode_ToLower_table g r)"

definition toLowerChar :: "char \<Rightarrow> char" where
  "toLowerChar c =
     (let n = (of_char c :: nat) in if 65 \<le> n \<and> n \<le> 90 then char_of (n + 32) else c)"

definition isASCII :: "string \<Rightarrow> bool" where
  "isASCII s = list_all (\<lambda>c. (of_char c :: nat) < 0x80) s"

definition hasUpper :: "string \<Rightarrow> bool" where
  "hasUpper s = list_ex (\<lambda>c. 65 \<le> (of_char c :: nat) \<and> (of_char c :: nat) \<le> 90) s"

definition strings_ToLower :: "release \<Rightarrow> string \<Rightarrow> string" where
  "strings_ToLower g s =
     (if isASCII s then (if \<not> hasUpper s then s else map toLowerChar s)
      else strings_Map (unicode_ToLower g) s)"

text \<open>
  \<^verbatim>\<open>strings.HasPrefix\<close>, \<^verbatim>\<open>strings.Split\<close> and \<^verbatim>\<open>strings.Join\<close> work on bytes.
  \<^verbatim>\<open>strings.Split\<close> is only called with the one-byte separators \<^verbatim>\<open>"&"\<close>,
  \<^verbatim>\<open>"#"\<close> and \<^verbatim>\<open>":"\<close>, so the separator is a \<open>char\<close>.
\<close>

definition strings_HasPrefix :: "string \<Rightarrow> string \<Rightarrow> bool" where
  "strings_HasPrefix s p = (take (length p) s = p)"

fun strings_Split :: "string \<Rightarrow> char \<Rightarrow> string list" where
  "strings_Split [] sep = [[]]"
| "strings_Split (c # cs) sep =
     (if c = sep then [] # strings_Split cs sep
      else (case strings_Split cs sep of
              [] \<Rightarrow> [[c]]
            | w # ws \<Rightarrow> (c # w) # ws))"

fun strings_Join :: "string list \<Rightarrow> string \<Rightarrow> string" where
  "strings_Join [] sep = []"
| "strings_Join [x] sep = x"
| "strings_Join (x # y # ys) sep = x @ sep @ strings_Join (y # ys) sep"

text \<open>
  \<^verbatim>\<open>strconv.Quote\<close>, which \<^verbatim>\<open>fmt\<close> applies for the verb \<^verbatim>\<open>%q\<close>. The string is
  read rune by rune. A byte that starts no well-formed encoding is written \<^verbatim>\<open>\xNN\<close>.
  A double quote or a backslash gets a backslash before it; a printable rune is
  written as it is; another rune is written as one of \<^verbatim>\<open>\a \b \f \n \r \t \v\<close>, as
  \<^verbatim>\<open>\xNN\<close> below 0x20, as \<^verbatim>\<open>\uNNNN\<close> below 0x10000 and as \<^verbatim>\<open>\UNNNNNNNN\<close>
  from there on; a rune that is no code point, of which the decoder returns none, is
  written as \<^verbatim>\<open>\ufffd\<close>.
\<close>

definition lowerhex :: "nat \<Rightarrow> char" where
  "lowerhex n = ''0123456789abcdef'' ! (n mod 16)"

definition strconv_IsPrint :: "release \<Rightarrow> nat \<Rightarrow> bool" where
  "strconv_IsPrint g r =
     (if r \<le> 0xFF
      then (0x20 \<le> r \<and> r \<le> 0x7E) \<or> (0xA1 \<le> r \<and> r \<noteq> 0xAD)
      else strconv_isPrint_table g r)"

definition appendEscapedRune :: "release \<Rightarrow> nat \<Rightarrow> string" where
  "appendEscapedRune g r =
     (if r = 0x22 \<or> r = 0x5C then [CHR 0x5C, char_of r]
      else if strconv_IsPrint g r then utf8_EncodeRune r
      else if r = 7 then [CHR 0x5C, CHR ''a'']
      else if r = 8 then [CHR 0x5C, CHR ''b'']
      else if r = 12 then [CHR 0x5C, CHR ''f'']
      else if r = 10 then [CHR 0x5C, CHR ''n'']
      else if r = 13 then [CHR 0x5C, CHR ''r'']
      else if r = 9 then [CHR 0x5C, CHR ''t'']
      else if r = 11 then [CHR 0x5C, CHR ''v'']
      else if r < 0x20 then [CHR 0x5C, CHR ''x'', lowerhex (r div 16), lowerhex r]
      else if r = 0x7F then strconv_escapeDEL g
      else if 0x10FFFF < r \<or> (0xD800 \<le> r \<and> r \<le> 0xDFFF)
      then [CHR 0x5C, CHR ''u'', CHR ''f'', CHR ''f'', CHR ''f'', CHR ''d'']
      else if r < 0x10000
      then [CHR 0x5C, CHR ''u'', lowerhex (r div 4096), lowerhex (r div 256),
            lowerhex (r div 16), lowerhex r]
      else [CHR 0x5C, CHR ''U'', lowerhex (r div 268435456), lowerhex (r div 16777216),
            lowerhex (r div 1048576), lowerhex (r div 65536), lowerhex (r div 4096),
            lowerhex (r div 256), lowerhex (r div 16), lowerhex r])"

text \<open>
  One turn of the loop of \<^verbatim>\<open>strconv.Quote\<close> on a string that is not empty: what
  is appended for its first rune, and the width of that rune.
\<close>

definition quoteStep :: "release \<Rightarrow> string \<Rightarrow> string \<times> nat" where
  "quoteStep g s =
     (let s0 = (of_char (s ! 0) :: nat);
          d = (if s0 \<ge> 0x80 then utf8_DecodeRuneInString s else (s0, 1));
          r = fst d; width = snd d
      in if width = 1 \<and> r = RuneError
         then ([CHR 0x5C, CHR ''x'', lowerhex (s0 div 16), lowerhex s0], width)
         else (appendEscapedRune g r, width))"

function quoteLoop :: "release \<Rightarrow> string \<Rightarrow> string" where
  "quoteLoop g [] = []"
| "quoteLoop g (c # s) =
     fst (quoteStep g (c # s)) @ quoteLoop g (drop (snd (quoteStep g (c # s))) (c # s))"
  by pat_completeness auto
termination
proof (relation "measure (\<lambda>(g, s). length s)")
  show "wf (measure (\<lambda>(g :: release, s :: string). length s))"
    by simp
next
  fix g :: release and c :: char and s :: string
  have "0 < snd (quoteStep g (c # s))"
    by (simp add: quoteStep_def utf8_DecodeRuneInString_def Let_def)
  then show "((g, drop (snd (quoteStep g (c # s))) (c # s)), g, c # s)
             \<in> measure (\<lambda>(g, s). length s)"
    by simp
qed

definition strconv_Quote :: "release \<Rightarrow> string \<Rightarrow> string" where
  "strconv_Quote g s = [CHR 0x22] @ quoteLoop g s @ [CHR 0x22]"

text \<open>Printable ASCII other than the double quote and the backslash.\<close>

definition plainChar :: "char \<Rightarrow> bool" where
  "plainChar c =
     (let n = (of_char c :: nat) in 32 \<le> n \<and> n < 127 \<and> n \<noteq> 34 \<and> n \<noteq> 92)"

section \<open>Package base\<close>

text \<open>
  \<^verbatim>\<open>pkg/base\<close> is imported by the file and is not among the sources. Its functions
  are parameters of the model: every theorem below that speaks of a \<open>base\<close> holds for
  whatever these functions compute. \<^verbatim>\<open>base.Record\<close> is a slice of strings.
\<close>

type_synonym Record = "string list"

record base =
  TryConvInt64 :: "string \<Rightarrow> string"
  TryConvDateTimestamp :: "string \<Rightarrow> string \<Rightarrow> string"
  IsValidType :: "string \<Rightarrow> bool"
  PathExists :: "string \<Rightarrow> bool"
  PathFileList :: "string \<Rightarrow> string list"

section \<open>The schema\<close>

text \<open>
  Every pointer field is an \<open>option\<close>, \<open>None\<close> for \<^verbatim>\<open>nil\<close>. A Go \<^verbatim>\<open>int\<close> is an
  \<open>int\<close>: the only arithmetic of the file adds a position in a slice to a start
  index, far from the bounds of 64 bits.
\<close>

record Prop =
  Prop_Name :: "string option"
  Prop_Type :: "string option"
  Prop_Index :: "int option"

record VID =
  VID_Index :: "int option"
  VID_Function :: "string option"

record Rank =
  Rank_Index :: "int option"

record Edge =
  Edge_Name :: "string option"
  Edge_WithRanking :: "bool option"
  Edge_Props :: "Prop option list"
  Edge_SrcVID :: "VID option"
  Edge_DstVID :: "VID option"
  Edge_Rank :: "Rank option"

record Tag =
  Tag_Name :: "string option"
  Tag_Props :: "Prop option list"

record Vertex =
  Vertex_VID :: "VID option"
  Vertex_Tags :: "Tag option list"

record Schema =
  Schema_Type :: "string option"
  Schema_Edge :: "Edge option"
  Schema_Vertex :: "Vertex option"

section \<open>Compiling a record\<close>

definition Prop_IsStringType :: "release \<Rightarrow> string \<Rightarrow> bool" where
  "Prop_IsStringType g ty = (strings_ToLower g ty = ''string'')"

definition Prop_IsIntType :: "release \<Rightarrow> string \<Rightarrow> bool" where
  "Prop_IsIntType g ty = (strings_ToLower g ty = ''int'')"

definition Prop_IsDateTimestampType :: "release \<Rightarrow> string \<Rightarrow> bool" where
  "Prop_IsDateTimestampType g ty = strings_HasPrefix (strings_ToLower g ty) ''date-timestamp''"

text \<open>
  \<^verbatim>\<open>Prop.FormatValue\<close>. The three type tests read \<^verbatim>\<open>*p.Type\<close>; they are given the
  dereferenced type here, and the dereference is the \<open>case\<close> before them. The guard
  \<^verbatim>\<open>p.Index != nil && *p.Index >= len(record)\<close> is false for a nil index, and
  \<^verbatim>\<open>record[*p.Index]\<close> then dereferences it.
\<close>

definition Prop_FormatValue :: "release \<Rightarrow> base \<Rightarrow> Prop \<Rightarrow> Record \<Rightarrow> failure + string" where
  "Prop_FormatValue g b p record =
     (case Prop_Index p of
        None \<Rightarrow> Inl (Panic NilDereference)
      | Some i \<Rightarrow>
          if i \<ge> int (length record)
          then Inl (Error (ErrPropIndexOutOfRange i (length record) record))
          else (case index record i of
                  Inl f \<Rightarrow> Inl f
                | Inr r \<Rightarrow>
                    (case Prop_Type p of
                       None \<Rightarrow> Inl (Panic NilDereference)
                     | Some ty \<Rightarrow>
                         if Prop_IsStringType g ty then Inr (strconv_Quote g r)
                         else if Prop_IsIntType g ty then Inr (TryConvInt64 b r)
                         else if Prop_IsDateTimestampType g ty
                         then (case index (strings_Split ty (CHR '':'')) 1 of
                                 Inl f \<Rightarrow> Inl f
                               | Inr layout \<Rightarrow> Inr (TryConvDateTimestamp b r layout))
                         else Inr r)))"

text \<open>
  The loop of \<^verbatim>\<open>Tag.FormatValues\<close>: a nil entry of \<^verbatim>\<open>t.Props\<close> is dereferenced by
  \<^verbatim>\<open>p.FormatValue\<close>, an error of \<^verbatim>\<open>p.FormatValue\<close> goes to \<^verbatim>\<open>logger.Fatalf\<close>.
\<close>

fun formatProps :: "release \<Rightarrow> base \<Rightarrow> Prop option list \<Rightarrow> Record \<Rightarrow> failure + string list" where
  "formatProps g b [] record = Inr []"
| "formatProps g b (p # ps) record =
     (case p of
        None \<Rightarrow> Inl (Panic NilDereference)
      | Some q \<Rightarrow>
          (case Prop_FormatValue g b q record of
             Inl (Error err) \<Rightarrow> Inl (Fatal (FatalTagFormat err))
           | Inl f \<Rightarrow> Inl f
           | Inr c \<Rightarrow>
               (case formatProps g b ps record of
                  Inl f \<Rightarrow> Inl f
                | Inr cells \<Rightarrow> Inr (c # cells))))"

definition Tag_FormatValues :: "release \<Rightarrow> base \<Rightarrow> Tag \<Rightarrow> Record \<Rightarrow> failure + string" where
  "Tag_FormatValues g b t record =
     (case formatProps g b (Tag_Props t) record of
        Inl f \<Rightarrow> Inl f
      | Inr cells \<Rightarrow> Inr (strings_Join cells '',''))"

text \<open>
  The rendering of a VID, written twice in the source (\<^verbatim>\<open>Vertex.FormatValues\<close>, and
  \<^verbatim>\<open>Edge.FormatValues\<close> for the source vertex): \<^verbatim>\<open>fmt.Sprintf("%s(%q)", ...)\<close> when
  the VID has a function, \<^verbatim>\<open>base.TryConvInt64\<close> of the cell otherwise.
\<close>

definition formatVID :: "release \<Rightarrow> base \<Rightarrow> VID option \<Rightarrow> Record \<Rightarrow> failure + string" where
  "formatVID g b vp record =
     (case vp of
        None \<Rightarrow> Inl (Panic NilDereference)
      | Some v \<Rightarrow>
          (case VID_Index v of
             None \<Rightarrow> Inl (Panic NilDereference)
           | Some i \<Rightarrow>
               (case index record i of
                  Inl f \<Rightarrow> Inl f
                | Inr cell \<Rightarrow>
                    (case VID_Function v of
                       Some fn \<Rightarrow> Inr (fn @ ''('' @ strconv_Quote g cell @ '')'')
                     | None \<Rightarrow> Inr (TryConvInt64 b cell)))))"

fun formatTags :: "release \<Rightarrow> base \<Rightarrow> Tag option list \<Rightarrow> Record \<Rightarrow> failure + string list" where
  "formatTags g b [] record = Inr []"
| "formatTags g b (t # ts) record =
     (case t of
        None \<Rightarrow> Inl (Panic NilDereference)
      | Some tag \<Rightarrow>
          (case Tag_FormatValues g b tag record of
             Inl f \<Rightarrow> Inl f
           | Inr c \<Rightarrow>
               (case formatTags g b ts record of
                  Inl f \<Rightarrow> Inl f
                | Inr cells \<Rightarrow> Inr (c # cells))))"

definition Vertex_FormatValues :: "release \<Rightarrow> base \<Rightarrow> Vertex \<Rightarrow> Record \<Rightarrow> failure + string" where
  "Vertex_FormatValues g b v record =
     (case formatTags g b (Vertex_Tags v) record of
        Inl f \<Rightarrow> Inl f
      | Inr cells \<Rightarrow>
          (case formatVID g b (Vertex_VID v) record of
             Inl f \<Rightarrow> Inl f
           | Inr vid \<Rightarrow> Inr ('' '' @ vid @ '': ('' @ strings_Join cells '','' @ '')'')))"

text \<open>
  \<^verbatim>\<open>Edge.FormatValues\<close>. The cell at the index of the first property holds the
  edges of the row: entries separated by \<^verbatim>\<open>&\<close>, each a destination and a value
  separated by \<^verbatim>\<open>#\<close> (the comment in the source shows such a cell). One statement is
  made per entry; \<^verbatim>\<open>e.DstVID\<close> and the other properties are not read.
\<close>

definition formatRank :: "Rank option \<Rightarrow> Record \<Rightarrow> failure + string" where
  "formatRank rp record =
     (case rp of
        None \<Rightarrow> Inr []
      | Some r \<Rightarrow>
          (case Rank_Index r of
             None \<Rightarrow> Inr []
           | Some i \<Rightarrow>
               (case index record i of
                  Inl f \<Rightarrow> Inl f
                | Inr cell \<Rightarrow> Inr (''@'' @ cell))))"

definition formatRow :: "base \<Rightarrow> string \<Rightarrow> string \<Rightarrow> string \<Rightarrow> failure + string" where
  "formatRow b srcVID rank row =
     (let cells = strings_Split row (CHR ''#'') in
      case index cells 0 of
        Inl f \<Rightarrow> Inl f
      | Inr c0 \<Rightarrow>
          (let cells = cells[0 := TryConvInt64 b c0] in
           case index cells 0 of
             Inl f \<Rightarrow> Inl f
           | Inr dst \<Rightarrow>
               (case index cells 1 of
                  Inl f \<Rightarrow> Inl f
                | Inr val \<Rightarrow>
                    Inr ('' '' @ srcVID @ ''->'' @ dst @ rank @ '':('' @ val @ '') ''))))"

fun formatRows :: "base \<Rightarrow> string \<Rightarrow> string \<Rightarrow> string list \<Rightarrow> failure + string list" where
  "formatRows b srcVID rank [] = Inr []"
| "formatRows b srcVID rank (row # rows) =
     (case formatRow b srcVID rank row of
        Inl f \<Rightarrow> Inl f
      | Inr s \<Rightarrow>
          (case formatRows b srcVID rank rows of
             Inl f \<Rightarrow> Inl f
           | Inr resultVec \<Rightarrow> Inr (s # resultVec)))"

definition Edge_FormatValues :: "release \<Rightarrow> base \<Rightarrow> Edge \<Rightarrow> Record \<Rightarrow> failure + string" where
  "Edge_FormatValues g b e record =
     andThen (formatRank (Edge_Rank e) record) (\<lambda>rank.
     andThen (formatVID g b (Edge_SrcVID e) record) (\<lambda>srcVID.
     andThen (index (Edge_Props e) 0) (\<lambda>p0.
     andThen (deref p0) (\<lambda>p.
     andThen (deref (Prop_Index p)) (\<lambda>k.
     andThen (index record k) (\<lambda>cell.
     andThen (formatRows b srcVID rank (strings_Split cell (CHR ''&''))) (\<lambda>resultVec.
     Inr (strings_Join resultVec '',''))))))))"

section \<open>An instance of package base for the scenarios\<close>

text \<open>
  Modelled from the spec: \<^verbatim>\<open>base.TryConvInt64\<close> is not among the sources. The spec
  gives the \<^verbatim>\<open>int\<close> rule as: parse the cell as a number and render its integer part,
  truncating toward zero; pass an unparsable cell through unchanged. A number is read
  here as an optional sign, one digit or more, and an optional point with digits.
\<close>

definition isDigit :: "char \<Rightarrow> bool" where
  "isDigit c = (let n = (of_char c :: nat) in 48 \<le> n \<and> n \<le> 57)"

definition integerPart :: "string \<Rightarrow> string option" where
  "integerPart body =
     (let ds = takeWhile isDigit body; rest = dropWhile isDigit body in
      if ds = [] then None
      else (case rest of
              [] \<Rightarrow> Some ds
            | c # frac \<Rightarrow>
                if c = CHR ''.'' \<and> list_all isDigit frac then Some ds else None))"

definition renderInteger :: "bool \<Rightarrow> string \<Rightarrow> string" where
  "renderInteger negative ds =
     (let sig = dropWhile (\<lambda>c. c = CHR ''0'') ds in
      if sig = [] then ''0'' else (if negative then ''-'' else []) @ sig)"

definition spec_TryConvInt64 :: "string \<Rightarrow> string" where
  "spec_TryConvInt64 s =
     (let negative = (case s of [] \<Rightarrow> False | c # _ \<Rightarrow> c = CHR ''-'');
          body = (case s of
                    [] \<Rightarrow> []
                  | c # cs \<Rightarrow> if c = CHR ''-'' \<or> c = CHR ''+'' then cs else s)
      in case integerPart body of
           None \<Rightarrow> s
         | Some ds \<Rightarrow> renderInteger negative ds)"

text \<open>
  Modelled from the spec: \<^verbatim>\<open>base.IsValidType\<close> is not among the sources. The spec
  lists the property types: bool, int, float, double, string, timestamp, and
  date-timestamp:FORMAT.
\<close>

definition spec_IsValidType :: "string \<Rightarrow> bool" where
  "spec_IsValidType t =
     (t \<in> set [''bool'', ''int'', ''float'', ''double'', ''string'', ''timestamp'']
      \<or> strings_HasPrefix t ''date-timestamp:'')"

text \<open>
  The instance the scenarios run on. Its release of Go lowers U+0130 to \<^verbatim>\<open>i\<close> and
  U+212A to \<^verbatim>\<open>k\<close>, as every release does, holds the byte order mark U+FEFF for
  not printable, and writes the rune 0x7F as \<^verbatim>\<open>\u007f\<close>; the other entries of
  its tables are not read by the scenarios. \<^verbatim>\<open>base.TryConvDateTimestamp\<close> is not
  among the sources, the spec does not say how FORMAT is read nor what a rendered
  timestamp looks like, and its scenarios have no date-timestamp property: the date
  conversion of the instance writes its two arguments down, which shows the cell and
  the layout that the compiler passes. The file system of the instance holds the one
  file \<^verbatim>\<open>/data/student.csv\<close>.
\<close>

definition scenario_release :: release where
  "scenario_release =
     \<lparr> unicode_ToLower_table =
         (\<lambda>r. if r = 0x130 then 0x69 else if r = 0x212A then 0x6B else r),
       strconv_isPrint_table = (\<lambda>r. r \<noteq> 0xFEFF),
       strconv_escapeDEL = [CHR 0x5C, CHR ''u'', CHR ''0'', CHR ''0'', CHR ''7'', CHR ''f''] \<rparr>"

definition scenario_base :: base where
  "scenario_base =
     \<lparr> TryConvInt64 = spec_TryConvInt64,
       TryConvDateTimestamp = (\<lambda>cell layout. ''timestamp('' @ cell @ '','' @ layout @ '')''),
       IsValidType = spec_IsValidType,
       PathExists = (\<lambda>path. path = ''/data/student.csv''),
       PathFileList = (\<lambda>path. [path]) \<rparr>"

section \<open>Resolving a schema\<close>

text \<open>
  The \<^verbatim>\<open>validateAndReset\<close> methods change the structure they are called on. Here each
  returns the changed structure; a caller that gets a failure has no use left for the
  structure, since \<^verbatim>\<open>Parse\<close> then returns no configuration.
\<close>

definition VID_checkFunction :: "release \<Rightarrow> VID \<Rightarrow> failure + unit" where
  "VID_checkFunction g v =
     (case VID_Function v of
        None \<Rightarrow> Inr ()
      | Some fn \<Rightarrow>
          if strings_ToLower g fn \<in> set [[], ''hash'', ''uuid''] then Inr ()
          else Inl (Error (ErrVIDFunction fn)))"

definition VID_validateAndReset :: "release \<Rightarrow> VID \<Rightarrow> int \<Rightarrow> failure + VID" where
  "VID_validateAndReset g v defaultVal =
     (let i = (case VID_Index v of None \<Rightarrow> defaultVal | Some i \<Rightarrow> i);
          v = v\<lparr>VID_Index := Some i\<rparr>
      in if i < 0 then Inl (Error (ErrIndex i))
         else andThen (VID_checkFunction g v) (\<lambda>_. Inr v))"

definition Rank_validateAndReset :: "Rank \<Rightarrow> int \<Rightarrow> failure + Rank" where
  "Rank_validateAndReset r defaultVal =
     (let i = (case Rank_Index r of None \<Rightarrow> defaultVal | Some i \<Rightarrow> i);
          r = r\<lparr>Rank_Index := Some i\<rparr>
      in if i < 0 then Inl (Error (ErrIndex i)) else Inr r)"

text \<open>
  \<^verbatim>\<open>Prop.validateAndReset\<close>. The first statement writes through \<^verbatim>\<open>p.Type\<close>; the
  arguments of \<^verbatim>\<open>logger.Fatalf\<close> dereference \<^verbatim>\<open>p.Name\<close> before the call is made.
\<close>

definition Prop_validateAndReset :: "release \<Rightarrow> base \<Rightarrow> Prop \<Rightarrow> int \<Rightarrow> failure + Prop" where
  "Prop_validateAndReset g b p val =
     andThen (deref (Prop_Type p)) (\<lambda>ty.
       (let ty = strings_ToLower g ty; p = p\<lparr>Prop_Type := Some ty\<rparr>
        in if \<not> IsValidType b ty then Inl (Error (ErrPropType ty))
           else (case Prop_Index p of
                   None \<Rightarrow> Inr (p\<lparr>Prop_Index := Some val\<rparr>)
                 | Some i \<Rightarrow>
                     if i < 0
                     then andThen (deref (Prop_Name p)) (\<lambda>name.
                            Inl (Fatal (FatalPropIndex i name ty)))
                     else Inr p)))"

text \<open>
  The loop \<^verbatim>\<open>for i := range Props\<close> of \<^verbatim>\<open>Edge.validateAndReset\<close> and of
  \<^verbatim>\<open>Tag.validateAndReset\<close>: a nil entry is logged and skipped, the entry at \<open>i\<close> gets
  the default \<^verbatim>\<open>i+start\<close>. The argument \<open>k\<close> is \<^verbatim>\<open>i+start\<close> for the head of the
  list.
\<close>

fun validateProps :: "release \<Rightarrow> base \<Rightarrow> int \<Rightarrow> Prop option list \<Rightarrow> failure + Prop option list" where
  "validateProps g b k [] = Inr []"
| "validateProps g b k (None # ps) =
     andThen (validateProps g b (k + 1) ps) (\<lambda>ps'. Inr (None # ps'))"
| "validateProps g b k (Some p # ps) =
     andThen (Prop_validateAndReset g b p k) (\<lambda>p'.
     andThen (validateProps g b (k + 1) ps) (\<lambda>ps'. Inr (Some p' # ps')))"

definition Tag_validateAndReset :: "release \<Rightarrow> base \<Rightarrow> Tag \<Rightarrow> int \<Rightarrow> failure + Tag" where
  "Tag_validateAndReset g b t start =
     (case Tag_Name t of
        None \<Rightarrow> Inl (Error ErrNoTagName)
      | Some _ \<Rightarrow>
          andThen (validateProps g b start (Tag_Props t)) (\<lambda>ps. Inr (t\<lparr>Tag_Props := ps\<rparr>)))"

text \<open>
  The loop over \<^verbatim>\<open>v.Tags\<close> of \<^verbatim>\<open>Vertex.validateAndReset\<close>: a nil tag is logged and
  skipped, and \<open>j\<close> moves on by the number of properties of each tag that is not nil.
\<close>

fun validateTags :: "release \<Rightarrow> base \<Rightarrow> int \<Rightarrow> Tag option list \<Rightarrow> failure + Tag option list" where
  "validateTags g b j [] = Inr []"
| "validateTags g b j (None # ts) =
     andThen (validateTags g b j ts) (\<lambda>ts'. Inr (None # ts'))"
| "validateTags g b j (Some t # ts) =
     andThen (Tag_validateAndReset g b t j) (\<lambda>t'.
     andThen (validateTags g b (j + int (length (Tag_Props t'))) ts) (\<lambda>ts'.
     Inr (Some t' # ts')))"

definition Vertex_validateAndReset :: "release \<Rightarrow> base \<Rightarrow> Vertex \<Rightarrow> failure + Vertex" where
  "Vertex_validateAndReset g b v =
     andThen (case Vertex_VID v of
                Some vid \<Rightarrow> VID_validateAndReset g vid 0
              | None \<Rightarrow> Inr \<lparr>VID_Index = Some 0, VID_Function = None\<rparr>) (\<lambda>vid.
     andThen (validateTags g b 1 (Vertex_Tags v)) (\<lambda>tags.
     Inr (v\<lparr>Vertex_VID := Some vid, Vertex_Tags := tags\<rparr>)))"

text \<open>
  \<^verbatim>\<open>Edge.validateAndReset\<close>. The third step gives the rank and \<^verbatim>\<open>start\<close>, the
  default index of the first property.
\<close>

definition Edge_validateAndReset :: "release \<Rightarrow> base \<Rightarrow> Edge \<Rightarrow> failure + Edge" where
  "Edge_validateAndReset g b e =
     (case Edge_Name e of
        None \<Rightarrow> Inl (Error ErrNoEdgeName)
      | Some _ \<Rightarrow>
          andThen (case Edge_SrcVID e of
                     Some vid \<Rightarrow> VID_validateAndReset g vid 0
                   | None \<Rightarrow> Inr \<lparr>VID_Index = Some 0, VID_Function = None\<rparr>) (\<lambda>src.
          andThen (case Edge_DstVID e of
                     Some vid \<Rightarrow> VID_validateAndReset g vid 1
                   | None \<Rightarrow> Inr \<lparr>VID_Index = Some 1, VID_Function = None\<rparr>) (\<lambda>dst.
          andThen (case Edge_Rank e of
                     Some r \<Rightarrow> andThen (Rank_validateAndReset r 2) (\<lambda>r'. Inr (Some r', 3))
                   | None \<Rightarrow>
                       if Edge_WithRanking e = Some True
                       then Inr (Some \<lparr>Rank_Index = Some 2\<rparr>, 3)
                       else Inr (None, 2)) (\<lambda>(rank, start).
          andThen (validateProps g b start (Edge_Props e)) (\<lambda>ps.
          Inr (e\<lparr>Edge_SrcVID := Some src, Edge_DstVID := Some dst,
                 Edge_Rank := rank, Edge_Props := ps\<rparr>))))))"

definition Schema_validateAndReset :: "release \<Rightarrow> base \<Rightarrow> Schema \<Rightarrow> failure + Schema" where
  "Schema_validateAndReset g b s =
     andThen (deref (Schema_Type s)) (\<lambda>ty.
       if strings_ToLower g ty = ''edge''
       then (case Schema_Edge s of
               Some e \<Rightarrow>
                 andThen (Edge_validateAndReset g b e) (\<lambda>e'. Inr (s\<lparr>Schema_Edge := Some e'\<rparr>))
             | None \<Rightarrow> Inr s)
       else if strings_ToLower g ty = ''vertex''
       then (case Schema_Vertex s of
               Some v \<Rightarrow>
                 andThen (Vertex_validateAndReset g b v) (\<lambda>v'. Inr (s\<lparr>Schema_Vertex := Some v'\<rparr>))
             | None \<Rightarrow> Inr s)
       else Inl (Error (ErrSchemaType ty)))"

section \<open>The configuration\<close>

record NebulaClientConnection =
  Connection_User :: "string option"
  Connection_Password :: "string option"
  Connection_Address :: "string option"

record NebulaClientSettings =
  Settings_Retry :: "int option"
  Settings_Concurrency :: "int option"
  Settings_ChannelBufferSize :: "int option"
  Settings_Space :: "string option"
  Settings_Connection :: "NebulaClientConnection option"

record CSVConfig =
  CSV_WithHeader :: "bool option"
  CSV_WithLabel :: "bool option"
  CSV_Delimiter :: "string option"

record File =
  File_Paths :: "string list"
  File_Path :: "string option"
  File_FailDataPath :: "string option"
  File_BatchSize :: "int option"
  File_Limit :: "int option"
  File_InOrder :: "bool option"
  File_Type :: "string option"
  File_CSV :: "CSVConfig option"
  File_Schema :: "Schema option"

record YAMLConfig =
  Config_Version :: "string option"
  Config_Description :: "string option"
  Config_NebulaClientSettings :: "NebulaClientSettings option"
  Config_LogPath :: "string option"
  Config_Files :: "File option list"

text \<open>
  What the file calls outside the repository and outside the string functions above:
  \<^verbatim>\<open>ioutil.ReadFile\<close>, \<^verbatim>\<open>yaml.Unmarshal\<close> and package \<^verbatim>\<open>path/filepath\<close>. They
  depend on the machine the importer runs on and are parameters too; \<open>Inl\<close> holds the
  text of the error such a call returns.
\<close>

record host =
  ioutil_ReadFile :: "string \<Rightarrow> string + string"
  yaml_Unmarshal :: "string \<Rightarrow> string + YAMLConfig"
  filepath_Abs :: "string \<Rightarrow> string + string"
  filepath_Dir :: "string \<Rightarrow> string"
  filepath_Base :: "string \<Rightarrow> string"
  filepath_Join :: "string list \<Rightarrow> string"

definition version :: string where
  "version = ''v1rc2''"

text \<open>
  An optional setting is reset by \<^verbatim>\<open>if x == nil { d := ...; x = &d }\<close>: \<open>resetTo\<close>
  is the pointer after that statement. Each method below tests in the order of the
  source and, when no test fails, returns the structure with all its writes made; no
  test reads a field that an earlier statement of the same method wrote, the path of a
  file apart, which is passed along.
\<close>

definition resetTo :: "'a option \<Rightarrow> 'a \<Rightarrow> 'a option" where
  "resetTo p d = (case p of None \<Rightarrow> Some d | Some x \<Rightarrow> Some x)"

definition NebulaClientConnection_validateAndReset ::
  "NebulaClientConnection \<Rightarrow> failure + NebulaClientConnection" where
  "NebulaClientConnection_validateAndReset c =
     Inr (c\<lparr>Connection_Address := resetTo (Connection_Address c) ''127.0.0.1:3699'',
            Connection_User := resetTo (Connection_User c) ''user'',
            Connection_Password := resetTo (Connection_Password c) ''password''\<rparr>)"

definition NebulaClientSettings_validateAndReset ::
  "NebulaClientSettings \<Rightarrow> failure + NebulaClientSettings" where
  "NebulaClientSettings_validateAndReset n =
     (case Settings_Space n of
        None \<Rightarrow> Inl (Error ErrNoSpace)
      | Some _ \<Rightarrow>
          (case Settings_Connection n of
             None \<Rightarrow> Inl (Error ErrNoConnection)
           | Some c \<Rightarrow>
               andThen (NebulaClientConnection_validateAndReset c) (\<lambda>c'.
               Inr (n\<lparr>Settings_Retry := resetTo (Settings_Retry n) 1,
                      Settings_Concurrency := resetTo (Settings_Concurrency n) 10,
                      Settings_ChannelBufferSize := resetTo (Settings_ChannelBufferSize n) 128,
                      Settings_Connection := Some c'\<rparr>))))"

definition CSVConfig_validateAndReset :: "CSVConfig \<Rightarrow> failure + CSVConfig" where
  "CSVConfig_validateAndReset c =
     (if (case CSV_Delimiter c of None \<Rightarrow> False | Some d \<Rightarrow> length d = 0)
      then Inl (Error ErrEmptyDelimiter)
      else Inr (c\<lparr>CSV_WithHeader := resetTo (CSV_WithHeader c) False,
                  CSV_WithLabel := resetTo (CSV_WithLabel c) False\<rparr>))"

text \<open>
  \<^verbatim>\<open>File.validateAndReset\<close>. \<open>resolvePath\<close> is its second statement: a path that
  does not exist as it is written is looked for under \<^verbatim>\<open>dir\<close>, and replaced by the
  joined path when that exists. \<open>defaultFailDataPath\<close> is the \<^verbatim>\<open>err\<close> directory
  beside the file. The error of \<^verbatim>\<open>base.PathFileList\<close> is dropped by the source.
  \<^verbatim>\<open>*f.Type\<close> is read with no test for nil before it.
\<close>

definition resolvePath :: "host \<Rightarrow> base \<Rightarrow> string \<Rightarrow> string \<Rightarrow> failure + string" where
  "resolvePath h b p dir =
     (if \<not> PathExists b p
      then (let path = filepath_Join h [dir, p]
            in if \<not> PathExists b path then Inl (Error (ErrFileNotExist p)) else Inr path)
      else Inr p)"

definition defaultFailDataPath :: "host \<Rightarrow> string \<Rightarrow> failure + string" where
  "defaultFailDataPath h p =
     (case filepath_Abs h (filepath_Dir h p) of
        Inl err \<Rightarrow> Inl (Error (ErrExternal err))
      | Inr d \<Rightarrow> Inr (filepath_Join h [d, ''err'', filepath_Base h p]))"

definition File_validateAndReset :: "release \<Rightarrow> host \<Rightarrow> base \<Rightarrow> File \<Rightarrow> string \<Rightarrow> failure + File" where
  "File_validateAndReset g h b f dir =
     (case File_Path f of
        None \<Rightarrow> Inl (Error ErrNoFilePath)
      | Some p \<Rightarrow>
          andThen (resolvePath h b p dir) (\<lambda>p.
          andThen (case File_FailDataPath f of
                     Some d \<Rightarrow> Inr d
                   | None \<Rightarrow> defaultFailDataPath h p) (\<lambda>failDataPath.
          andThen (deref (File_Type f)) (\<lambda>ty.
            if strings_ToLower g ty \<noteq> ''csv'' then Inl (Error (ErrFileType ty))
            else
          andThen (case File_CSV f of
                     None \<Rightarrow> Inr None
                   | Some c \<Rightarrow> andThen (CSVConfig_validateAndReset c) (\<lambda>c'. Inr (Some c')))
          (\<lambda>csv.
          (case File_Schema f of
             None \<Rightarrow> Inl (Error ErrNoFileSchema)
           | Some s \<Rightarrow>
               andThen (Schema_validateAndReset g b s) (\<lambda>s'.
               Inr (f\<lparr>File_Paths := PathFileList b p,
                      File_Path := Some p,
                      File_FailDataPath := Some failDataPath,
                      File_BatchSize := resetTo (File_BatchSize f) 128,
                      File_InOrder := resetTo (File_InOrder f) False,
                      File_CSV := csv,
                      File_Schema := Some s'\<rparr>))))))))"

text \<open>
  The loop over \<^verbatim>\<open>config.Files\<close> of \<^verbatim>\<open>YAMLConfig.ValidateAndReset\<close>; the method
  reads \<^verbatim>\<open>f.Path\<close> first, which for a nil entry is a nil dereference.
\<close>

fun validateFiles ::
  "release \<Rightarrow> host \<Rightarrow> base \<Rightarrow> File option list \<Rightarrow> string \<Rightarrow> failure + File option list"
  where
  "validateFiles g h b [] dir = Inr []"
| "validateFiles g h b (fp # fs) dir =
     andThen (deref fp) (\<lambda>f.
     andThen (File_validateAndReset g h b f dir) (\<lambda>f'.
     andThen (validateFiles g h b fs dir) (\<lambda>fs'. Inr (Some f' # fs'))))"

definition YAMLConfig_ValidateAndReset ::
  "release \<Rightarrow> host \<Rightarrow> base \<Rightarrow> YAMLConfig \<Rightarrow> string \<Rightarrow> failure + YAMLConfig" where
  "YAMLConfig_ValidateAndReset g h b config dir =
     (case Config_NebulaClientSettings config of
        None \<Rightarrow> Inl (Error ErrNoClientSettings)
      | Some n \<Rightarrow>
          andThen (NebulaClientSettings_validateAndReset n) (\<lambda>n'.
            if length (Config_Files config) = 0 then Inl (Error ErrNoFiles)
            else
          andThen (validateFiles g h b (Config_Files config) dir) (\<lambda>fs.
          Inr (config\<lparr>Config_NebulaClientSettings := Some n',
                      Config_LogPath :=
                        resetTo (Config_LogPath config) ''/tmp/nebula-importer.log'',
                      Config_Files := fs\<rparr>))))"

text \<open>
  \<^verbatim>\<open>Parse\<close>. The guard of the version test is
  \<^verbatim>\<open>conf.Version == nil && *conf.Version != version\<close>: \<^verbatim>\<open>&&\<close> evaluates its right
  operand only when the left one is true.
\<close>

definition Parse_versionGuard :: "YAMLConfig \<Rightarrow> failure + bool" where
  "Parse_versionGuard conf =
     (if Config_Version conf = None
      then andThen (deref (Config_Version conf)) (\<lambda>v. Inr (v \<noteq> version))
      else Inr False)"

definition Parse :: "release \<Rightarrow> host \<Rightarrow> base \<Rightarrow> string \<Rightarrow> failure + YAMLConfig" where
  "Parse g h b filename =
     (case ioutil_ReadFile h filename of
        Inl err \<Rightarrow> Inl (Error (ErrExternal err))
      | Inr content \<Rightarrow>
          (case yaml_Unmarshal h content of
             Inl err \<Rightarrow> Inl (Error (ErrExternal err))
           | Inr conf \<Rightarrow>
               andThen (Parse_versionGuard conf) (\<lambda>mismatch.
                 if mismatch then Inl (Error ErrVersion)
                 else (case filepath_Abs h (filepath_Dir h filename) of
                         Inl err \<Rightarrow> Inl (Error (ErrExternal err))
                       | Inr path \<Rightarrow> YAMLConfig_ValidateAndReset g h b conf path))))"

section \<open>The scenarios of the spec\<close>

text \<open>
  The vertex of the spec's vertex scenario as a configuration file would give it, with
  no index written, and after resolution; the edge of the edge scenario, resolved.
\<close>

definition scenario_vertex_raw :: Vertex where
  "scenario_vertex_raw =
     \<lparr> Vertex_VID = None,
       Vertex_Tags =
         [Some \<lparr> Tag_Name = Some ''student'',
                 Tag_Props =
                   [Some \<lparr> Prop_Name = Some ''name'', Prop_Type = Some ''string'',
                           Prop_Index = None \<rparr>,
                    Some \<lparr> Prop_Name = Some ''age'', Prop_Type = Some ''int'',
                           Prop_Index = None \<rparr>] \<rparr>] \<rparr>"

definition scenario_vertex :: Vertex where
  "scenario_vertex =
     \<lparr> Vertex_VID = Some \<lparr> VID_Index = Some 0, VID_Function = None \<rparr>,
       Vertex_Tags =
         [Some \<lparr> Tag_Name = Some ''student'',
                 Tag_Props =
                   [Some \<lparr> Prop_Name = Some ''name'', Prop_Type = Some ''string'',
                           Prop_Index = Some 1 \<rparr>,
                    Some \<lparr> Prop_Name = Some ''age'', Prop_Type = Some ''int'',
                           Prop_Index = Some 2 \<rparr>] \<rparr>] \<rparr>"

definition scenario_edge_raw :: Edge where
  "scenario_edge_raw =
     \<lparr> Edge_Name = Some ''like'',
       Edge_WithRanking = Some True,
       Edge_Props =
         [Some \<lparr> Prop_Name = Some ''likeness'', Prop_Type = Some ''double'',
                 Prop_Index = None \<rparr>],
       Edge_SrcVID = Some \<lparr> VID_Index = None, VID_Function = Some ''hash'' \<rparr>,
       Edge_DstVID = None,
       Edge_Rank = None \<rparr>"

definition scenario_edge :: Edge where
  "scenario_edge =
     \<lparr> Edge_Name = Some ''like'',
       Edge_WithRanking = Some True,
       Edge_Props =
         [Some \<lparr> Prop_Name = Some ''likeness'', Prop_Type = Some ''double'',
                 Prop_Index = Some 3 \<rparr>],
       Edge_SrcVID = Some \<lparr> VID_Index = Some 0, VID_Function = Some ''hash'' \<rparr>,
       Edge_DstVID = Some \<lparr> VID_Index = Some 1, VID_Function = None \<rparr>,
       Edge_Rank = Some \<lparr> Rank_Index = Some 2 \<rparr> \<rparr>"

text \<open>
  An edge with every index written, none at its default: the property of the edge
  scenario in column 7, the source in column 4, the destination in column 3 and a
  rank section for column 0.
\<close>

definition scenario_edge_explicit :: Edge where
  "scenario_edge_explicit =
     \<lparr> Edge_Name = Some ''like'',
       Edge_WithRanking = None,
       Edge_Props =
         [Some \<lparr> Prop_Name = Some ''likeness'', Prop_Type = Some ''double'',
                 Prop_Index = Some 7 \<rparr>],
       Edge_SrcVID = Some \<lparr> VID_Index = Some 4, VID_Function = Some ''hash'' \<rparr>,
       Edge_DstVID = Some \<lparr> VID_Index = Some 3, VID_Function = None \<rparr>,
       Edge_Rank = Some \<lparr> Rank_Index = Some 0 \<rparr> \<rparr>"

text \<open>
  The vertex of the spec's out-of-range scenario: a property at index 5, for a record
  of two cells.
\<close>

definition scenario_wide_prop :: Prop where
  "scenario_wide_prop =
     \<lparr> Prop_Name = Some ''name'', Prop_Type = Some ''string'', Prop_Index = Some 5 \<rparr>"

definition scenario_wide_tag :: Tag where
  "scenario_wide_tag =
     \<lparr> Tag_Name = Some ''student'', Tag_Props = [Some scenario_wide_prop] \<rparr>"

definition scenario_wide_vertex :: Vertex where
  "scenario_wide_vertex =
     \<lparr> Vertex_VID = Some \<lparr> VID_Index = Some 0, VID_Function = None \<rparr>,
       Vertex_Tags = [Some scenario_wide_tag] \<rparr>"

text \<open>
  A configuration that names the vertex file and leaves every optional setting out; its
  version is not \<^verbatim>\<open>v1rc2\<close>. \<open>scenario_host\<close> is a machine on which
  \<^verbatim>\<open>/data/v0.yaml\<close> holds this configuration and \<^verbatim>\<open>/data/none.yaml\<close> the same with no
  version; its paths are absolute and clean, so \<^verbatim>\<open>filepath.Abs\<close> changes nothing.
\<close>

definition scenario_file :: File where
  "scenario_file =
     \<lparr> File_Paths = [],
       File_Path = Some ''/data/student.csv'',
       File_FailDataPath = None,
       File_BatchSize = None,
       File_Limit = None,
       File_InOrder = None,
       File_Type = Some ''csv'',
       File_CSV = None,
       File_Schema = Some \<lparr> Schema_Type = Some ''vertex'', Schema_Edge = None,
                              Schema_Vertex = Some scenario_vertex_raw \<rparr> \<rparr>"

definition scenario_config :: YAMLConfig where
  "scenario_config =
     \<lparr> Config_Version = Some ''v0'',
       Config_Description = None,
       Config_NebulaClientSettings =
         Some \<lparr> Settings_Retry = None, Settings_Concurrency = None,
                 Settings_ChannelBufferSize = None, Settings_Space = Some ''test'',
                 Settings_Connection =
                   Some \<lparr> Connection_User = None, Connection_Password = None,
                           Connection_Address = None \<rparr> \<rparr>,
       Config_LogPath = None,
       Config_Files = [Some scenario_file] \<rparr>"

definition scenario_file_resolved :: File where
  "scenario_file_resolved =
     \<lparr> File_Paths = [''/data/student.csv''],
       File_Path = Some ''/data/student.csv'',
       File_FailDataPath = Some ''/data/err/student.csv'',
       File_BatchSize = Some 128,
       File_Limit = None,
       File_InOrder = Some False,
       File_Type = Some ''csv'',
       File_CSV = None,
       File_Schema = Some \<lparr> Schema_Type = Some ''vertex'', Schema_Edge = None,
                              Schema_Vertex = Some scenario_vertex \<rparr> \<rparr>"

definition scenario_config_resolved :: YAMLConfig where
  "scenario_config_resolved =
     \<lparr> Config_Version = Some ''v0'',
       Config_Description = None,
       Config_NebulaClientSettings =
         Some \<lparr> Settings_Retry = Some 1, Settings_Concurrency = Some 10,
                 Settings_ChannelBufferSize = Some 128, Settings_Space = Some ''test'',
                 Settings_Connection =
                   Some \<lparr> Connection_User = Some ''user'',
                           Connection_Password = Some ''password'',
                           Connection_Address = Some ''127.0.0.1:3699'' \<rparr> \<rparr>,
       Config_LogPath = Some ''/tmp/nebula-importer.log'',
       Config_Files = [Some scenario_file_resolved] \<rparr>"

definition scenario_host :: host where
  "scenario_host =
     \<lparr> ioutil_ReadFile =
         (\<lambda>filename. if filename = ''/data/v0.yaml'' then Inr ''version: v0''
                     else if filename = ''/data/none.yaml'' then Inr []
                     else Inl ''no such file''),
       yaml_Unmarshal =
         (\<lambda>content. if content = ''version: v0'' then Inr scenario_config
                    else Inr (scenario_config\<lparr>Config_Version := None\<rparr>)),
       filepath_Abs = (\<lambda>path. Inr path),
       filepath_Dir = (\<lambda>path. strings_Join (butlast (strings_Split path (CHR ''/''))) ''/''),
       filepath_Base = (\<lambda>path. last (strings_Split path (CHR ''/''))),
       filepath_Join = (\<lambda>elems. strings_Join elems ''/'') \<rparr>"

section \<open>The words of the claims\<close>

text \<open>
  \<open>tagProps\<close> lists the properties of a vertex across its tags, in the order of the
  tags, a nil tag having none. \<open>resolvedIndex raw resolved d\<close> says that a nil entry
  stays nil, and that a property keeps the index it was given or gets \<open>d\<close>.
\<close>

definition resolvedIndex :: "Prop option \<Rightarrow> Prop option \<Rightarrow> int \<Rightarrow> bool" where
  "resolvedIndex raw resolved d =
     (case raw of
        None \<Rightarrow> resolved = None
      | Some p \<Rightarrow>
          (case resolved of
             None \<Rightarrow> False
           | Some p' \<Rightarrow>
               Prop_Index p' = Some (case Prop_Index p of None \<Rightarrow> d | Some i \<Rightarrow> i)))"

definition tagProps :: "Tag option list \<Rightarrow> Prop option list" where
  "tagProps ts = concat (map (\<lambda>t. case t of None \<Rightarrow> [] | Some tag \<Rightarrow> Tag_Props tag) ts)"

text \<open>
  \<open>returnsError\<close>: the call returned an error to its caller. \<open>returns\<close>: the call
  came back to its caller, with a value or with an error.
\<close>

definition returnsError :: "failure + 'a \<Rightarrow> bool" where
  "returnsError r = (case r of Inl (Error err) \<Rightarrow> True | _ \<Rightarrow> False)"

definition returns :: "failure + 'a \<Rightarrow> bool" where
  "returns r = (case r of Inr x \<Rightarrow> True | Inl (Error err) \<Rightarrow> True | _ \<Rightarrow> False)"

text \<open>
  What the claims call a negative index, an unsupported generator and an unknown type.
  \<open>typedAndIndexed\<close> holds of a list of properties when each one that is not nil has
  a type and no negative index.
\<close>

definition badVID :: "release \<Rightarrow> VID option \<Rightarrow> bool" where
  "badVID g vp =
     (case vp of
        None \<Rightarrow> False
      | Some v \<Rightarrow>
          (case VID_Index v of None \<Rightarrow> False | Some i \<Rightarrow> i < 0)
          \<or> (case VID_Function v of
                None \<Rightarrow> False
              | Some fn \<Rightarrow> strings_ToLower g fn \<notin> set [[], ''hash'', ''uuid'']))"

definition badRank :: "Rank option \<Rightarrow> bool" where
  "badRank rp =
     (case rp of
        None \<Rightarrow> False
      | Some r \<Rightarrow> (case Rank_Index r of None \<Rightarrow> False | Some i \<Rightarrow> i < 0))"

definition unknownType :: "release \<Rightarrow> base \<Rightarrow> Prop \<Rightarrow> bool" where
  "unknownType g b p =
     (case Prop_Type p of None \<Rightarrow> False | Some ty \<Rightarrow> \<not> IsValidType b (strings_ToLower g ty))"

definition typedAndIndexed :: "Prop option list \<Rightarrow> bool" where
  "typedAndIndexed ps =
     list_all (\<lambda>pp. case pp of
                      None \<Rightarrow> True
                    | Some p \<Rightarrow>
                        Prop_Type p \<noteq> None
                        \<and> (case Prop_Index p of None \<Rightarrow> True | Some i \<Rightarrow> 0 \<le> i)) ps"

text \<open>
  What resolution accepts: every property that is not nil has a type that
  \<^verbatim>\<open>base.IsValidType\<close> knows and no negative index, every tag that is not nil has a
  name, no VID is bad, and an edge has a name and no bad rank.
\<close>

definition acceptableProps :: "release \<Rightarrow> base \<Rightarrow> Prop option list \<Rightarrow> bool" where
  "acceptableProps g b ps =
     list_all (\<lambda>pp. case pp of
                      None \<Rightarrow> True
                    | Some p \<Rightarrow>
                        Prop_Type p \<noteq> None \<and> \<not> unknownType g b p
                        \<and> (case Prop_Index p of None \<Rightarrow> True | Some i \<Rightarrow> 0 \<le> i)) ps"

definition acceptableTags :: "release \<Rightarrow> base \<Rightarrow> Tag option list \<Rightarrow> bool" where
  "acceptableTags g b ts =
     list_all (\<lambda>tp. case tp of
                      None \<Rightarrow> True
                    | Some t \<Rightarrow> Tag_Name t \<noteq> None \<and> acceptableProps g b (Tag_Props t)) ts"

definition acceptableVertex :: "release \<Rightarrow> base \<Rightarrow> Vertex \<Rightarrow> bool" where
  "acceptableVertex g b v =
     (\<not> badVID g (Vertex_VID v) \<and> acceptableTags g b (Vertex_Tags v))"

definition acceptableEdge :: "release \<Rightarrow> base \<Rightarrow> Edge \<Rightarrow> bool" where
  "acceptableEdge g b e =
     (Edge_Name e \<noteq> None \<and> \<not> badVID g (Edge_SrcVID e) \<and> \<not> badVID g (Edge_DstVID e)
      \<and> \<not> badRank (Edge_Rank e) \<and> acceptableProps g b (Edge_Props e))"

section \<open>Basic facts\<close>

lemma andThen_Inl [simp]: "andThen (Inl f) k = Inl f"
  by (simp add: andThen_def)

lemma andThen_Inr [simp]: "andThen (Inr x) k = k x"
  by (simp add: andThen_def)

lemma andThen_eq_Inr: "andThen r k = Inr y \<longleftrightarrow> (\<exists>x. r = Inr x \<and> k x = Inr y)"
  by (cases r) simp_all

lemma andThen_eq_Inl:
  "andThen r k = Inl f \<longleftrightarrow> r = Inl f \<or> (\<exists>x. r = Inr x \<and> k x = Inl f)"
  by (cases r) auto

lemma deref_None [simp]: "deref None = Inl (Panic NilDereference)"
  by (simp add: deref_def)

lemma deref_Some [simp]: "deref (Some x) = Inr x"
  by (simp add: deref_def)

lemmas resolution_defs =
  VID_checkFunction_def VID_validateAndReset_def Rank_validateAndReset_def
  Prop_validateAndReset_def Tag_validateAndReset_def Vertex_validateAndReset_def
  Edge_validateAndReset_def Schema_validateAndReset_def

lemmas compile_defs =
  Prop_FormatValue_def Prop_IsStringType_def Prop_IsIntType_def Prop_IsDateTimestampType_def
  Tag_FormatValues_def formatVID_def Vertex_FormatValues_def formatRank_def formatRow_def
  Edge_FormatValues_def index_def

lemmas config_defs =
  resetTo_def NebulaClientConnection_validateAndReset_def
  NebulaClientSettings_validateAndReset_def CSVConfig_validateAndReset_def
  resolvePath_def defaultFailDataPath_def File_validateAndReset_def
  YAMLConfig_ValidateAndReset_def

lemmas string_defs =
  strings_ToLower_def toLowerChar_def isASCII_def hasUpper_def unicode_ToLower_def
  utf8_DecodeRuneInString_def utf8_EncodeRune_def acceptRange_def RuneError_def
  strings_HasPrefix_def strconv_Quote_def quoteStep_def appendEscapedRune_def
  strconv_IsPrint_def lowerhex_def char_of_eq_iff Let_def

lemmas scenario_defs =
  scenario_release_def scenario_base_def scenario_host_def scenario_config_def scenario_file_def
  scenario_vertex_raw_def scenario_vertex_def scenario_edge_raw_def scenario_edge_def
  scenario_edge_explicit_def
  scenario_wide_prop_def scenario_wide_tag_def scenario_wide_vertex_def
  scenario_file_resolved_def scenario_config_resolved_def spec_IsValidType_def
  spec_TryConvInt64_def
  integerPart_def renderInteger_def isDigit_def

lemma scenario_config_resolves:
  "YAMLConfig_ValidateAndReset scenario_release scenario_host scenario_base scenario_config
       ''/data''
     = Inr scenario_config_resolved"
  by (simp add: resolution_defs config_defs scenario_defs string_defs)

section \<open>Facts about indexing and the string functions\<close>

lemma index_in_range: "0 \<le> i \<Longrightarrow> i < int (length xs) \<Longrightarrow> index xs i = Inr (xs ! nat i)"
  by (simp add: index_def)

lemma quoteStep_plain: "plainChar c \<Longrightarrow> quoteStep g (c # s) = ([c], 1)"
  by (auto simp: plainChar_def quoteStep_def appendEscapedRune_def strconv_IsPrint_def
        utf8_EncodeRune_def RuneError_def Let_def)

lemma quoteLoop_plain: "list_all plainChar s \<Longrightarrow> quoteLoop g s = s"
  by (induction s) (simp_all add: quoteStep_plain)

lemma strconv_Quote_plain:
  "list_all plainChar s \<Longrightarrow> strconv_Quote g s = [CHR 0x22] @ s @ [CHR 0x22]"
  by (simp add: strconv_Quote_def quoteLoop_plain)

lemma strings_ToLower_ASCII: "isASCII s \<Longrightarrow> strings_ToLower g s = map toLowerChar s"
  by (induction s)
     (auto simp: strings_ToLower_def isASCII_def hasUpper_def toLowerChar_def Let_def
        list_ex_iff map_idI)

lemma date_prefix_not_string:
  "strings_HasPrefix x ''date-timestamp'' \<Longrightarrow> x \<noteq> ''string'' \<and> x \<noteq> ''int''"
  by (auto simp: strings_HasPrefix_def)

text \<open>
  Beyond ASCII, on the release of the scenarios: \<^verbatim>\<open>strings.ToLower\<close> reads
  U+0130 in \<^verbatim>\<open>UU\<close>, U+0130, \<^verbatim>\<open>D\<close> and gives \<^verbatim>\<open>uuid\<close>; \<^verbatim>\<open>%q\<close> writes a
  byte order mark as \<^verbatim>\<open>\ufeff\<close>, a byte that is no UTF-8 as \<^verbatim>\<open>\xff\<close>, and
  leaves the two bytes of U+00E9 as they are.
\<close>

lemma strings_ToLower_beyond_ASCII:
  "strings_ToLower scenario_release [CHR ''U'', CHR ''U'', CHR 0xC4, CHR 0xB0, CHR ''D'']
     = ''uuid''"
  by (simp add: string_defs scenario_release_def)

lemma strconv_Quote_beyond_ASCII:
  "strconv_Quote scenario_release [CHR 0xEF, CHR 0xBB, CHR 0xBF, CHR ''A'']
     = [CHR 0x22, CHR 0x5C, CHR ''u'', CHR ''f'', CHR ''e'', CHR ''f'', CHR ''f'', CHR ''A'',
        CHR 0x22]
   \<and> strconv_Quote scenario_release [CHR 0xFF, CHR 0xC3, CHR 0xA9]
     = [CHR 0x22, CHR 0x5C, CHR ''x'', CHR ''f'', CHR ''f'', CHR 0xC3, CHR 0xA9, CHR 0x22]"
  by (simp add: string_defs scenario_release_def)

lemma strings_Split_not_Nil [simp]: "strings_Split s sep \<noteq> []"
  by (induction s) (auto split: list.splits)

lemma strings_Split_no_sep: "sep \<notin> set s \<Longrightarrow> strings_Split s sep = [s]"
  by (induction s) auto

lemma strings_Split_append:
  "sep \<notin> set x \<Longrightarrow> strings_Split (x @ sep # y) sep = x # strings_Split y sep"
  by (induction x) (auto split: list.splits)

lemma strings_Join_Cons: "xs \<noteq> [] \<Longrightarrow> strings_Join (x # xs) sep = x @ sep @ strings_Join xs sep"
  by (cases xs) simp_all

lemma strings_Join_append:
  "xs \<noteq> [] \<Longrightarrow> ys \<noteq> [] \<Longrightarrow>
   strings_Join (xs @ ys) sep = strings_Join xs sep @ sep @ strings_Join ys sep"
  by (induction xs sep rule: strings_Join.induct) (simp_all add: strings_Join_Cons)

lemma strings_Join_concat:
  "\<forall>xs \<in> set xss. xs \<noteq> [] \<Longrightarrow>
   strings_Join (map (\<lambda>xs. strings_Join xs sep) xss) sep = strings_Join (concat xss) sep"
proof (induction xss)
  case Nil
  then show ?case by simp
next
  case (Cons xs xss)
  show ?case
  proof (cases xss)
    case Nil
    then show ?thesis by simp
  next
    case (Cons ys yss)
    with Cons.prems have "concat xss \<noteq> []" "xs \<noteq> []" by auto
    with Cons.IH Cons.prems show ?thesis
      by (simp add: strings_Join_Cons strings_Join_append local.Cons)
  qed
qed

lemma strings_Split_Join:
  "xs \<noteq> [] \<Longrightarrow> \<forall>x \<in> set xs. sep \<notin> set x \<Longrightarrow>
   strings_Split (strings_Join xs [sep]) sep = xs"
proof (induction xs)
  case Nil
  then show ?case by simp
next
  case (Cons x xs)
  show ?case
  proof (cases xs)
    case Nil
    with Cons.prems show ?thesis by (simp add: strings_Split_no_sep)
  next
    case (Cons y ys)
    with Cons.IH Cons.prems show ?thesis
      by (simp add: strings_Join_Cons strings_Split_append)
  qed
qed

section \<open>Formatting one value\<close>

lemma spec_TryConvInt64_integer_part:
  assumes "ds \<noteq> []" and "list_all isDigit ds" and "hd ds \<noteq> CHR ''0''"
    and "frac = [] \<or> (frac = CHR ''.'' # fs \<and> list_all isDigit fs)"
  shows "spec_TryConvInt64 (ds @ frac) = ds"
    and "spec_TryConvInt64 (CHR ''-'' # ds @ frac) = CHR ''-'' # ds"
proof -
  from assms(1) obtain d ds' where ds: "ds = d # ds'" by (cases ds) auto
  with assms(2,3) have d: "isDigit d" "d \<noteq> CHR ''0''" by simp_all
  then have sign: "d \<noteq> CHR ''-''" "d \<noteq> CHR ''+''"
    by (auto simp: isDigit_def)
  have digits: "\<And>x. x \<in> set ds \<Longrightarrow> isDigit x"
    using assms(2) by (simp add: list_all_iff)
  have stop: "takeWhile isDigit frac = []" "dropWhile isDigit frac = frac"
    using assms(4) by (auto simp: isDigit_def)
  have take: "takeWhile isDigit (ds @ frac) = ds"
    using digits by (simp add: takeWhile_append2 stop)
  have drop: "dropWhile isDigit (ds @ frac) = frac"
    using digits by (simp add: dropWhile_append2 stop)
  have part: "integerPart (ds @ frac) = Some ds"
    using assms(1,4) by (auto simp: integerPart_def take drop Let_def)
  have render: "renderInteger negative ds = (if negative then ''-'' else []) @ ds" for negative
    using d by (simp add: renderInteger_def ds)
  show "spec_TryConvInt64 (ds @ frac) = ds"
    using part [unfolded ds] render [unfolded ds] sign
    by (simp add: spec_TryConvInt64_def ds)
  show "spec_TryConvInt64 (CHR ''-'' # ds @ frac) = CHR ''-'' # ds"
    using part by (simp add: spec_TryConvInt64_def render)
qed

lemma spec_TryConvInt64_unparsable:
  assumes "case cell of [] \<Rightarrow> True
           | c # cs \<Rightarrow> \<not> isDigit c \<and> c \<noteq> CHR ''-'' \<and> c \<noteq> CHR ''+''"
  shows "spec_TryConvInt64 cell = cell"
  using assms
  by (cases cell) (simp_all add: spec_TryConvInt64_def integerPart_def)

text \<open>
  C7, as amended. For a property whose index is within the record,
  \<^verbatim>\<open>Prop.FormatValue\<close> returns a text that depends on the declared type alone, read
  through \<^verbatim>\<open>strings.ToLower\<close>. Type string gives the cell as \<^verbatim>\<open>%q\<close> quotes it,
  which is the cell between double quotes when the cell is printable ASCII with no
  double quote and no backslash. Type int gives \<^verbatim>\<open>base.TryConvInt64\<close> of the cell;
  with that function as the spec describes it, a cell made of an optional minus sign,
  digits and an optional fraction gives the sign and the digits (the integer part,
  truncated toward zero) and a cell that starts like no number is passed through
  unchanged. A type that begins with date-timestamp and has one colon,
  date-timestamp:FORMAT, gives \<^verbatim>\<open>base.TryConvDateTimestamp\<close> of the cell and
  FORMAT. A type that is neither string nor int and does not begin with date-timestamp
  gives the cell unchanged.
\<close>

theorem Prop_FormatValue_by_type:
  assumes "Prop_Index p = Some i" and "0 \<le> i" and "i < int (length record)"
    and "Prop_Type p = Some ty"
  shows "(strings_ToLower g ty = ''string'' \<longrightarrow>
            Prop_FormatValue g b p record = Inr (strconv_Quote g (record ! nat i))
            \<and> (list_all plainChar (record ! nat i) \<longrightarrow>
                 Prop_FormatValue g b p record
                   = Inr ([CHR 0x22] @ record ! nat i @ [CHR 0x22])))
       \<and> (strings_ToLower g ty = ''int'' \<longrightarrow>
            Prop_FormatValue g b p record = Inr (TryConvInt64 b (record ! nat i))
            \<and> (TryConvInt64 b = spec_TryConvInt64 \<and> ds \<noteq> [] \<and> list_all isDigit ds
                 \<and> hd ds \<noteq> CHR ''0''
                 \<and> (frac = [] \<or> (frac = CHR ''.'' # fs \<and> list_all isDigit fs)) \<longrightarrow>
               (record ! nat i = ds @ frac \<longrightarrow> Prop_FormatValue g b p record = Inr ds)
               \<and> (record ! nat i = CHR ''-'' # ds @ frac \<longrightarrow>
                    Prop_FormatValue g b p record = Inr (CHR ''-'' # ds)))
            \<and> (TryConvInt64 b = spec_TryConvInt64
                 \<and> (case record ! nat i of
                       [] \<Rightarrow> True
                     | c # cs \<Rightarrow> \<not> isDigit c \<and> c \<noteq> CHR ''-'' \<and> c \<noteq> CHR ''+'') \<longrightarrow>
               Prop_FormatValue g b p record = Inr (record ! nat i)))
       \<and> (strings_HasPrefix (strings_ToLower g ty) ''date-timestamp''
            \<and> ty = name @ '':'' @ layout
            \<and> CHR '':'' \<notin> set name \<and> CHR '':'' \<notin> set layout \<longrightarrow>
            Prop_FormatValue g b p record
              = Inr (TryConvDateTimestamp b (record ! nat i) layout))
       \<and> (strings_ToLower g ty \<noteq> ''string'' \<and> strings_ToLower g ty \<noteq> ''int''
            \<and> \<not> strings_HasPrefix (strings_ToLower g ty) ''date-timestamp'' \<longrightarrow>
            Prop_FormatValue g b p record = Inr (record ! nat i))"
proof -
  let ?cell = "record ! nat i"
  have cell: "index record i = Inr ?cell"
    using assms by (simp add: index_in_range)
  have start: "Prop_FormatValue g b p record =
      (if strings_ToLower g ty = ''string'' then Inr (strconv_Quote g ?cell)
       else if strings_ToLower g ty = ''int'' then Inr (TryConvInt64 b ?cell)
       else if strings_HasPrefix (strings_ToLower g ty) ''date-timestamp''
       then (case index (strings_Split ty (CHR '':'')) 1 of
               Inl f \<Rightarrow> Inl f
             | Inr layout \<Rightarrow> Inr (TryConvDateTimestamp b ?cell layout))
       else Inr ?cell)"
    using assms
    by (simp add: Prop_FormatValue_def cell Prop_IsStringType_def Prop_IsIntType_def
          Prop_IsDateTimestampType_def)
  have string: "Prop_FormatValue g b p record = Inr (strconv_Quote g ?cell)"
    if "strings_ToLower g ty = ''string''"
    using that by (simp add: start)
  have int: "Prop_FormatValue g b p record = Inr (TryConvInt64 b ?cell)"
    if "strings_ToLower g ty = ''int''"
    using that by (simp add: start)
  have date: "Prop_FormatValue g b p record = Inr (TryConvDateTimestamp b ?cell layout)"
    if prefix: "strings_HasPrefix (strings_ToLower g ty) ''date-timestamp''"
      and ty: "ty = name @ '':'' @ layout"
      and name: "CHR '':'' \<notin> set name" and layout: "CHR '':'' \<notin> set layout"
  proof -
    have "strings_Split ty (CHR '':'') = [name, layout]"
      using name layout by (simp add: ty strings_Split_append strings_Split_no_sep)
    then show ?thesis
      using prefix date_prefix_not_string [OF prefix] by (simp add: start index_def)
  qed
  have other: "Prop_FormatValue g b p record = Inr ?cell"
    if "strings_ToLower g ty \<noteq> ''string''" and "strings_ToLower g ty \<noteq> ''int''"
      and "\<not> strings_HasPrefix (strings_ToLower g ty) ''date-timestamp''"
    using that by (simp add: start)
  show ?thesis
  proof (intro conjI impI)
    assume "strings_ToLower g ty = ''string''"
    then show "Prop_FormatValue g b p record = Inr (strconv_Quote g ?cell)"
      by (rule string)
  next
    assume "strings_ToLower g ty = ''string''" and "list_all plainChar ?cell"
    then show "Prop_FormatValue g b p record = Inr ([CHR 0x22] @ ?cell @ [CHR 0x22])"
      by (simp add: string strconv_Quote_plain)
  next
    assume "strings_ToLower g ty = ''int''"
    then show "Prop_FormatValue g b p record = Inr (TryConvInt64 b ?cell)"
      by (rule int)
  next
    assume ty: "strings_ToLower g ty = ''int''"
      and h: "TryConvInt64 b = spec_TryConvInt64 \<and> ds \<noteq> [] \<and> list_all isDigit ds
                 \<and> hd ds \<noteq> CHR ''0''
                 \<and> (frac = [] \<or> (frac = CHR ''.'' # fs \<and> list_all isDigit fs))"
      and c: "?cell = ds @ frac"
    from h have "spec_TryConvInt64 (ds @ frac) = ds"
      by (intro spec_TryConvInt64_integer_part(1) [where fs = fs]) simp_all
    with h c show "Prop_FormatValue g b p record = Inr ds"
      by (simp add: int [OF ty])
  next
    assume ty: "strings_ToLower g ty = ''int''"
      and h: "TryConvInt64 b = spec_TryConvInt64 \<and> ds \<noteq> [] \<and> list_all isDigit ds
                 \<and> hd ds \<noteq> CHR ''0''
                 \<and> (frac = [] \<or> (frac = CHR ''.'' # fs \<and> list_all isDigit fs))"
      and c: "?cell = CHR ''-'' # ds @ frac"
    from h have "spec_TryConvInt64 (CHR ''-'' # ds @ frac) = CHR ''-'' # ds"
      by (intro spec_TryConvInt64_integer_part(2) [where fs = fs]) simp_all
    with h c show "Prop_FormatValue g b p record = Inr (CHR ''-'' # ds)"
      by (simp add: int [OF ty])
  next
    assume ty: "strings_ToLower g ty = ''int''"
      and h: "TryConvInt64 b = spec_TryConvInt64
                 \<and> (case ?cell of
                       [] \<Rightarrow> True
                     | c # cs \<Rightarrow> \<not> isDigit c \<and> c \<noteq> CHR ''-'' \<and> c \<noteq> CHR ''+'')"
    then have "spec_TryConvInt64 ?cell = ?cell"
      by (intro spec_TryConvInt64_unparsable) simp
    with h show "Prop_FormatValue g b p record = Inr ?cell"
      by (simp add: int [OF ty])
  next
    assume "strings_HasPrefix (strings_ToLower g ty) ''date-timestamp''
            \<and> ty = name @ '':'' @ layout
            \<and> CHR '':'' \<notin> set name \<and> CHR '':'' \<notin> set layout"
    then show "Prop_FormatValue g b p record = Inr (TryConvDateTimestamp b ?cell layout)"
      using date by blast
  next
    assume "strings_ToLower g ty \<noteq> ''string'' \<and> strings_ToLower g ty \<noteq> ''int''
            \<and> \<not> strings_HasPrefix (strings_ToLower g ty) ''date-timestamp''"
    then show "Prop_FormatValue g b p record = Inr ?cell"
      using other by blast
  qed
qed

text \<open>
  As the claim is written, a string cell comes out as the raw cell between double
  quotes, a date-timestamp cell is parsed with FORMAT, and every other type gives the
  raw cell. A double quote inside a string cell is escaped; a FORMAT with a colon is
  cut at the colon; and the type \<^verbatim>\<open>date-timestamp\<close> with no FORMAT makes the
  compiler panic.
\<close>

theorem Prop_FormatValue_string_escapes:
  \<open>Prop_FormatValue scenario_release scenario_base
      \<lparr> Prop_Name = Some ''name'', Prop_Type = Some ''string'', Prop_Index = Some 0 \<rparr>
      [''a"b'']
     = Inr [CHR 0x22, CHR ''a'', CHR 0x5C, CHR 0x22, CHR ''b'', CHR 0x22]
   \<and> Prop_FormatValue scenario_release scenario_base
      \<lparr> Prop_Name = Some ''name'', Prop_Type = Some ''string'', Prop_Index = Some 0 \<rparr>
      [''a"b'']
     \<noteq> Inr ([CHR 0x22] @ ''a"b'' @ [CHR 0x22])
   \<and> Prop_FormatValue scenario_release scenario_base
      \<lparr> Prop_Name = Some ''at'', Prop_Type = Some ''date-timestamp:15:04'',
        Prop_Index = Some 0 \<rparr>
      [''10:30'']
     = Inr (TryConvDateTimestamp scenario_base ''10:30'' ''15'')
   \<and> TryConvDateTimestamp scenario_base ''10:30'' ''15''
     \<noteq> TryConvDateTimestamp scenario_base ''10:30'' ''15:04''
   \<and> Prop_FormatValue scenario_release scenario_base
      \<lparr> Prop_Name = Some ''at'', Prop_Type = Some ''date-timestamp'', Prop_Index = Some 0 \<rparr>
      [''10:30'']
     = Inl (Panic IndexOutOfRange)\<close>
  by (simp add: compile_defs string_defs scenario_base_def scenario_release_def)

text \<open>
  The kinds of type, on cells of the scenarios: a name, an age with and without a
  fraction, a negative number, a word in an int column, a date, and a double.
\<close>

theorem Prop_FormatValue_by_type_witness:
  \<open>Prop_FormatValue scenario_release scenario_base
      \<lparr> Prop_Name = Some ''name'', Prop_Type = Some ''string'', Prop_Index = Some 1 \<rparr>
      [''101'', ''Mary'', ''19'']
     = Inr ''"Mary"''
   \<and> Prop_FormatValue scenario_release scenario_base
      \<lparr> Prop_Name = Some ''age'', Prop_Type = Some ''INT'', Prop_Index = Some 2 \<rparr>
      [''101'', ''Mary'', ''19'']
     = Inr ''19''
   \<and> Prop_FormatValue scenario_release scenario_base
      \<lparr> Prop_Name = Some ''age'', Prop_Type = Some ''int'', Prop_Index = Some 2 \<rparr>
      [''101'', ''Mary'', ''19.75'']
     = Inr ''19''
   \<and> Prop_FormatValue scenario_release scenario_base
      \<lparr> Prop_Name = Some ''age'', Prop_Type = Some ''int'', Prop_Index = Some 2 \<rparr>
      [''101'', ''Mary'', ''-3.9'']
     = Inr ''-3''
   \<and> Prop_FormatValue scenario_release scenario_base
      \<lparr> Prop_Name = Some ''age'', Prop_Type = Some ''int'', Prop_Index = Some 2 \<rparr>
      [''101'', ''Mary'', ''old'']
     = Inr ''old''
   \<and> Prop_FormatValue scenario_release scenario_base
      \<lparr> Prop_Name = Some ''born'', Prop_Type = Some ''date-timestamp:yyyy-mm-dd'',
        Prop_Index = Some 0 \<rparr>
      [''2001-02-03'']
     = Inr ''timestamp(2001-02-03,yyyy-mm-dd)''
   \<and> Prop_FormatValue scenario_release scenario_base
      \<lparr> Prop_Name = Some ''likeness'', Prop_Type = Some ''double'', Prop_Index = Some 3 \<rparr>
      [''A'', ''5'', ''0'', ''9.5'']
     = Inr ''9.5''\<close>
proof -
  let ?g = scenario_release and ?b = scenario_base
  let ?name = "\<lparr> Prop_Name = Some ''name'', Prop_Type = Some ''string'', Prop_Index = Some 1 \<rparr>"
  let ?AGE = "\<lparr> Prop_Name = Some ''age'', Prop_Type = Some ''INT'', Prop_Index = Some 2 \<rparr>"
  let ?age = "\<lparr> Prop_Name = Some ''age'', Prop_Type = Some ''int'', Prop_Index = Some 2 \<rparr>"
  let ?born = "\<lparr> Prop_Name = Some ''born'', Prop_Type = Some ''date-timestamp:yyyy-mm-dd'',
        Prop_Index = Some 0 \<rparr>"
  let ?likeness = "\<lparr> Prop_Name = Some ''likeness'', Prop_Type = Some ''double'',
        Prop_Index = Some 3 \<rparr>"
  have conv: "TryConvInt64 ?b = spec_TryConvInt64"
    by (simp add: scenario_base_def)
  have "Prop_FormatValue ?g ?b ?name [''101'', ''Mary'', ''19'']
      = Inr ([CHR 0x22] @ ''Mary'' @ [CHR 0x22])"
    using Prop_FormatValue_by_type
            [of ?name 1 "[''101'', ''Mary'', ''19'']" "''string''" ?g ?b]
    by (simp add: string_defs plainChar_def)
  moreover have "Prop_FormatValue ?g ?b ?AGE [''101'', ''Mary'', ''19''] = Inr ''19''"
    using Prop_FormatValue_by_type
            [of ?AGE 2 "[''101'', ''Mary'', ''19'']" "''INT''" ?g ?b "''19''" "[]"]
    by (auto simp: string_defs isDigit_def conv)
  moreover have "Prop_FormatValue ?g ?b ?age [''101'', ''Mary'', ''19.75''] = Inr ''19''"
    using Prop_FormatValue_by_type
            [of ?age 2 "[''101'', ''Mary'', ''19.75'']" "''int''" ?g ?b "''19''" "''.75''"
               "''75''"]
    by (auto simp: string_defs isDigit_def conv)
  moreover have "Prop_FormatValue ?g ?b ?age [''101'', ''Mary'', ''-3.9''] = Inr ''-3''"
    using Prop_FormatValue_by_type
            [of ?age 2 "[''101'', ''Mary'', ''-3.9'']" "''int''" ?g ?b "''3''" "''.9''"
               "''9''"]
    by (auto simp: string_defs isDigit_def conv)
  moreover have "Prop_FormatValue ?g ?b ?age [''101'', ''Mary'', ''old''] = Inr ''old''"
    using Prop_FormatValue_by_type
            [of ?age 2 "[''101'', ''Mary'', ''old'']" "''int''" ?g ?b "''1''" "[]" "[]"]
    by (auto simp: string_defs isDigit_def conv)
  moreover have "Prop_FormatValue ?g ?b ?born [''2001-02-03'']
      = Inr ''timestamp(2001-02-03,yyyy-mm-dd)''"
    using Prop_FormatValue_by_type
            [of ?born 0 "[''2001-02-03'']" "''date-timestamp:yyyy-mm-dd''" ?g ?b _ _ _
               "''date-timestamp''" "''yyyy-mm-dd''"]
    by (simp add: string_defs scenario_base_def)
  moreover have "Prop_FormatValue ?g ?b ?likeness [''A'', ''5'', ''0'', ''9.5'']
      = Inr ''9.5''"
    using Prop_FormatValue_by_type
            [of ?likeness 3 "[''A'', ''5'', ''0'', ''9.5'']" "''double''" ?g ?b]
    by (simp add: string_defs)
  ultimately show ?thesis by simp
qed

section \<open>An index beyond the record\<close>

lemma formatProps_not_Error: "formatProps g b ps record \<noteq> Inl (Error err)"
  by (induction ps) (auto split: option.splits sum.splits failure.splits)

lemma Prop_FormatValue_out_of_range:
  "Prop_Index p = Some i \<Longrightarrow> int (length record) \<le> i \<Longrightarrow>
   Prop_FormatValue g b p record = Inl (Error (ErrPropIndexOutOfRange i (length record) record))"
  by (simp add: Prop_FormatValue_def)

lemma formatProps_out_of_range:
  "Some p \<in> set ps \<Longrightarrow> Prop_Index p = Some i \<Longrightarrow> int (length record) \<le> i \<Longrightarrow>
   \<exists>f. formatProps g b ps record = Inl f"
  by (induction ps)
     (auto simp: Prop_FormatValue_out_of_range split: option.splits sum.splits failure.splits)

lemma formatProps_first_out_of_range:
  "formatProps g b ps record = Inr cells \<Longrightarrow> Prop_Index p = Some i \<Longrightarrow> int (length record) \<le> i \<Longrightarrow>
   formatProps g b (ps @ Some p # qs) record
     = Inl (Fatal (FatalTagFormat (ErrPropIndexOutOfRange i (length record) record)))"
  by (induction ps arbitrary: cells)
     (auto simp: Prop_FormatValue_out_of_range split: option.splits sum.splits failure.splits)

lemma formatTags_not_Error: "formatTags g b ts record \<noteq> Inl (Error err)"
  by (induction ts)
     (auto simp: Tag_FormatValues_def formatProps_not_Error split: option.splits sum.splits)

lemma formatTags_out_of_range:
  "Some t \<in> set ts \<Longrightarrow> Some p \<in> set (Tag_Props t) \<Longrightarrow> Prop_Index p = Some i \<Longrightarrow>
   int (length record) \<le> i \<Longrightarrow> \<exists>f. formatTags g b ts record = Inl f"
  by (induction ts)
     (auto simp: Tag_FormatValues_def dest: formatProps_out_of_range [where g = g and b = b]
           split: option.splits sum.splits)

text \<open>
  C2, as amended. When the index of a property is the length of the record or more,
  \<^verbatim>\<open>Prop.FormatValue\<close> returns an error that holds the index, the length of the
  record and the record. \<^verbatim>\<open>Tag.FormatValues\<close> hands that error to
  \<^verbatim>\<open>logger.Fatalf\<close>, which ends the process, when the properties before it were
  formatted; and \<^verbatim>\<open>Vertex.FormatValues\<close> of a vertex with such a property in a tag
  does not come back to its caller, with a statement or with an error.
\<close>

theorem Prop_index_out_of_range:
  assumes "Prop_Index p = Some i" and "int (length record) \<le> i"
  shows "Prop_FormatValue g b p record
           = Inl (Error (ErrPropIndexOutOfRange i (length record) record))
       \<and> (Tag_Props t = ps @ Some p # qs \<and> formatProps g b ps record = Inr cells \<longrightarrow>
            Tag_FormatValues g b t record
              = Inl (Fatal (FatalTagFormat (ErrPropIndexOutOfRange i (length record) record))))
       \<and> (Some t \<in> set (Vertex_Tags v) \<and> Some p \<in> set (Tag_Props t) \<longrightarrow>
            \<not> returns (Vertex_FormatValues g b v record))"
proof (intro conjI impI)
  show "Prop_FormatValue g b p record
          = Inl (Error (ErrPropIndexOutOfRange i (length record) record))"
    using assms by (rule Prop_FormatValue_out_of_range)
next
  assume "Tag_Props t = ps @ Some p # qs \<and> formatProps g b ps record = Inr cells"
  then show "Tag_FormatValues g b t record
      = Inl (Fatal (FatalTagFormat (ErrPropIndexOutOfRange i (length record) record)))"
    using assms by (simp add: Tag_FormatValues_def formatProps_first_out_of_range)
next
  assume "Some t \<in> set (Vertex_Tags v) \<and> Some p \<in> set (Tag_Props t)"
  then obtain f where "formatTags g b (Vertex_Tags v) record = Inl f"
    using assms formatTags_out_of_range by blast
  moreover have "f \<noteq> Error err" for err
    using calculation formatTags_not_Error [of g b "Vertex_Tags v" "record" err] by auto
  ultimately show "\<not> returns (Vertex_FormatValues g b v record)"
    by (cases f) (auto simp: Vertex_FormatValues_def returns_def)
qed

text \<open>
  As the claim is written, the record alone is rejected, with no panic and no abort. In
  the out-of-range scenario of the spec the vertex compiler ends the process, and the
  edge compiler panics on a record too short for its rank.
\<close>

theorem out_of_range_aborts:
  "Vertex_FormatValues scenario_release scenario_base scenario_wide_vertex [''101'', ''Mary'']
     = Inl (Fatal (FatalTagFormat (ErrPropIndexOutOfRange 5 2 [''101'', ''Mary''])))
   \<and> Edge_FormatValues scenario_release scenario_base scenario_edge [''A'', ''5'']
     = Inl (Panic IndexOutOfRange)"
  by (simp add: compile_defs scenario_defs)

text \<open>The out-of-range scenario, step by step.\<close>

theorem Prop_index_out_of_range_witness:
  "Prop_FormatValue scenario_release scenario_base scenario_wide_prop [''101'', ''Mary'']
     = Inl (Error (ErrPropIndexOutOfRange 5 2 [''101'', ''Mary'']))
   \<and> Tag_FormatValues scenario_release scenario_base scenario_wide_tag [''101'', ''Mary'']
     = Inl (Fatal (FatalTagFormat (ErrPropIndexOutOfRange 5 2 [''101'', ''Mary''])))
   \<and> \<not> returns (Vertex_FormatValues scenario_release scenario_base scenario_wide_vertex
                  [''101'', ''Mary''])"
  using Prop_index_out_of_range
          [of scenario_wide_prop 5 "[''101'', ''Mary'']" scenario_release scenario_base
              scenario_wide_tag "[]" "[]"
              "[]" scenario_wide_vertex]
  by (simp add: scenario_wide_prop_def scenario_wide_tag_def scenario_wide_vertex_def)

section \<open>The statement of a vertex\<close>

lemma formatProps_cells:
  "list_all2 (\<lambda>p c. \<exists>q. p = Some q \<and> Prop_FormatValue g b q record = Inr c) ps cells \<Longrightarrow>
   formatProps g b ps record = Inr cells"
  by (induction rule: list_all2_induct) auto

lemma formatTags_cells:
  "list_all2 (\<lambda>t cells. \<exists>tag. t = Some tag \<and> formatProps g b (Tag_Props tag) record = Inr cells)
     ts groups \<Longrightarrow>
   formatTags g b ts record = Inr (map (\<lambda>cells. strings_Join cells '','') groups)"
  by (induction rule: list_all2_induct) (auto simp: Tag_FormatValues_def)

lemma Vertex_FormatValues_groups:
  assumes "Vertex_VID v = Some vid" and "VID_Index vid = Some i"
    and "0 \<le> i" and "i < int (length record)"
    and "list_all2
           (\<lambda>t cells. \<exists>tag. t = Some tag \<and>
              list_all2 (\<lambda>p c. \<exists>q. p = Some q \<and> Prop_FormatValue g b q record = Inr c)
                (Tag_Props tag) cells)
           (Vertex_Tags v) groups"
  shows "Vertex_FormatValues g b v record =
           Inr ('' ''
                @ (case VID_Function vid of
                     Some fn \<Rightarrow> fn @ ''('' @ strconv_Quote g (record ! nat i) @ '')''
                   | None \<Rightarrow> TryConvInt64 b (record ! nat i))
                @ '': ('' @ strings_Join (map (\<lambda>cells. strings_Join cells '','') groups) '',''
                @ '')'')"
proof -
  have "list_all2
          (\<lambda>t cells. \<exists>tag. t = Some tag \<and> formatProps g b (Tag_Props tag) record = Inr cells)
          (Vertex_Tags v) groups"
    using assms(5) by (rule list_all2_mono) (auto dest: formatProps_cells)
  then have tags: "formatTags g b (Vertex_Tags v) record
      = Inr (map (\<lambda>cells. strings_Join cells '','') groups)"
    by (rule formatTags_cells)
  have vid: "formatVID g b (Vertex_VID v) record =
      Inr (case VID_Function vid of
             Some fn \<Rightarrow> fn @ ''('' @ strconv_Quote g (record ! nat i) @ '')''
           | None \<Rightarrow> TryConvInt64 b (record ! nat i))"
    using assms(1-4) by (simp add: formatVID_def index_in_range split: option.splits)
  show ?thesis
    by (simp add: Vertex_FormatValues_def tags vid)
qed

text \<open>
  C3, as amended. For a vertex whose VID index is within the record, whose tags and
  properties are all present and whose tags have a property each, and a record on which
  every property formats to a value, with \<open>groups\<close> the formatted values of each
  tag's properties in their order, \<^verbatim>\<open>Vertex.FormatValues\<close> returns a space, the
  rendered VID, \<^verbatim>\<open>": ("\<close>, the values of all properties joined by commas, tag after
  tag in the order of the tags, and \<^verbatim>\<open>")"\<close>.
\<close>

theorem Vertex_FormatValues_statement:
  assumes "Vertex_VID v = Some vid" and "VID_Index vid = Some i"
    and "0 \<le> i" and "i < int (length record)"
    and "list_all2
           (\<lambda>t cells. \<exists>tag. t = Some tag \<and>
              list_all2 (\<lambda>p c. \<exists>q. p = Some q \<and> Prop_FormatValue g b q record = Inr c)
                (Tag_Props tag) cells)
           (Vertex_Tags v) groups"
    and "\<forall>cells \<in> set groups. cells \<noteq> []"
  shows "Vertex_FormatValues g b v record =
           Inr ('' ''
                @ (case VID_Function vid of
                     Some fn \<Rightarrow> fn @ ''('' @ strconv_Quote g (record ! nat i) @ '')''
                   | None \<Rightarrow> TryConvInt64 b (record ! nat i))
                @ '': ('' @ strings_Join (concat groups) '','' @ '')'')"
  using Vertex_FormatValues_groups [OF assms(1-5)] assms(6)
  by (simp add: strings_Join_concat)

text \<open>
  As the claim is written, the vertex scenario gives exactly \<^verbatim>\<open>101: ("Mary",19)\<close>,
  and the text holds the properties and nothing between them. The text returned starts
  with a space; and a tag with no property leaves a comma: with an empty tag before the
  tag of the scenario, the text has \<^verbatim>\<open>(,"Mary",19)\<close>.
\<close>

theorem Vertex_FormatValues_scenario:
  \<open>Vertex_FormatValues scenario_release scenario_base scenario_vertex
      [''101'', ''Mary'', ''19'']
     = Inr '' 101: ("Mary",19)''
   \<and> Vertex_FormatValues scenario_release scenario_base scenario_vertex
        [''101'', ''Mary'', ''19'']
     \<noteq> Inr ''101: ("Mary",19)''
   \<and> Vertex_FormatValues scenario_release scenario_base
        (scenario_vertex
           \<lparr>Vertex_Tags :=
              Some \<lparr> Tag_Name = Some ''person'', Tag_Props = [] \<rparr>
              # Vertex_Tags scenario_vertex\<rparr>)
        [''101'', ''Mary'', ''19'']
     = Inr '' 101: (,"Mary",19)''
   \<and> Vertex_FormatValues scenario_release scenario_base
        (scenario_vertex
           \<lparr>Vertex_Tags :=
              Some \<lparr> Tag_Name = Some ''person'', Tag_Props = [] \<rparr>
              # Vertex_Tags scenario_vertex\<rparr>)
        [''101'', ''Mary'', ''19'']
     \<noteq> Inr '' 101: ("Mary",19)''\<close>
  by (simp add: compile_defs string_defs scenario_defs)

text \<open>The vertex scenario, composed from its parts.\<close>

theorem Vertex_FormatValues_statement_witness:
  \<open>Vertex_FormatValues scenario_release scenario_base scenario_vertex
      [''101'', ''Mary'', ''19'']
     = Inr ('' '' @ ''101'' @ '': ('' @ ''"Mary"'' @ '','' @ ''19'' @ '')'')\<close>
proof -
  let ?r = "[''101'', ''Mary'', ''19'']"
  have "list_all2
           (\<lambda>t cells. \<exists>tag. t = Some tag \<and>
              list_all2
                (\<lambda>p c. \<exists>q. p = Some q
                   \<and> Prop_FormatValue scenario_release scenario_base q ?r = Inr c)
                (Tag_Props tag) cells)
           (Vertex_Tags scenario_vertex) [[[CHR 0x22] @ ''Mary'' @ [CHR 0x22], ''19'']]"
    by (simp add: compile_defs string_defs scenario_defs)
  from Vertex_FormatValues_statement
         [of scenario_vertex "\<lparr> VID_Index = Some 0, VID_Function = None \<rparr>" 0 ?r
             scenario_release scenario_base, OF _ _ _ _ this]
  show ?thesis
    by (simp add: scenario_defs)
qed

section \<open>The statements of an edge\<close>

lemma formatRow_entry:
  "CHR ''#'' \<notin> set dst \<Longrightarrow> CHR ''#'' \<notin> set val \<Longrightarrow>
   formatRow b srcVID rank (dst @ CHR ''#'' # val)
     = Inr ('' '' @ srcVID @ ''->'' @ TryConvInt64 b dst @ rank @ '':('' @ val @ '') '')"
  by (simp add: formatRow_def strings_Split_append strings_Split_no_sep index_def)

lemma formatRows_entries:
  "\<forall>(dst, val) \<in> set entries. CHR ''#'' \<notin> set dst \<and> CHR ''#'' \<notin> set val \<Longrightarrow>
   formatRows b srcVID rank (map (\<lambda>(dst, val). dst @ ''#'' @ val) entries)
     = Inr (map (\<lambda>(dst, val).
                   '' '' @ srcVID @ ''->'' @ TryConvInt64 b dst @ rank @ '':('' @ val @ '') '')
              entries)"
  by (induction entries) (auto simp: formatRow_entry)

text \<open>
  C1, as amended. For an edge whose source VID, rank (when it has one) and first property
  have indices within the record, and a record whose cell at the first property's index
  is a list of entries \<^verbatim>\<open>dst#val\<close> separated by \<^verbatim>\<open>&\<close>, \<^verbatim>\<open>Edge.FormatValues\<close>
  returns one statement per entry, joined by commas: a space, the rendered source VID,
  \<^verbatim>\<open>->\<close>, \<^verbatim>\<open>base.TryConvInt64\<close> of \<^verbatim>\<open>dst\<close>, \<^verbatim>\<open>@\<close> and the rank cell exactly
  when the edge has a rank, \<^verbatim>\<open>:(\<close>, \<^verbatim>\<open>val\<close>, \<^verbatim>\<open>)\<close> and a space. The column of
  the destination VID and the other properties are not read.
\<close>

theorem Edge_FormatValues_statements:
  assumes "Edge_SrcVID e = Some vid" and "VID_Index vid = Some i"
    and "0 \<le> i" and "i < int (length record)"
    and "Edge_Props e = Some p # ps" and "Prop_Index p = Some k"
    and "0 \<le> k" and "k < int (length record)"
    and "case Edge_Rank e of
           None \<Rightarrow> True
         | Some r \<Rightarrow> (case Rank_Index r of
                        None \<Rightarrow> True
                      | Some j \<Rightarrow> 0 \<le> j \<and> j < int (length record))"
    and "record ! nat k = strings_Join (map (\<lambda>(dst, val). dst @ ''#'' @ val) entries) ''&''"
    and "entries \<noteq> []"
    and "\<forall>(dst, val) \<in> set entries.
           CHR ''#'' \<notin> set dst \<and> CHR ''&'' \<notin> set dst \<and>
           CHR ''#'' \<notin> set val \<and> CHR ''&'' \<notin> set val"
  shows "Edge_FormatValues g b e record =
           Inr (strings_Join
                  (map (\<lambda>(dst, val).
                          '' ''
                          @ (case VID_Function vid of
                               Some fn \<Rightarrow> fn @ ''('' @ strconv_Quote g (record ! nat i) @ '')''
                             | None \<Rightarrow> TryConvInt64 b (record ! nat i))
                          @ ''->'' @ TryConvInt64 b dst
                          @ (case Edge_Rank e of
                               None \<Rightarrow> []
                             | Some r \<Rightarrow> (case Rank_Index r of
                                            None \<Rightarrow> []
                                          | Some j \<Rightarrow> ''@'' @ record ! nat j))
                          @ '':('' @ val @ '') '')
                     entries)
                  '','')"
proof -
  let ?rank = "case Edge_Rank e of
                 None \<Rightarrow> []
               | Some r \<Rightarrow> (case Rank_Index r of None \<Rightarrow> [] | Some j \<Rightarrow> ''@'' @ record ! nat j)"
  let ?src = "case VID_Function vid of
                Some fn \<Rightarrow> fn @ ''('' @ strconv_Quote g (record ! nat i) @ '')''
              | None \<Rightarrow> TryConvInt64 b (record ! nat i)"
  have rank: "formatRank (Edge_Rank e) record = Inr ?rank"
    using assms(9) by (auto simp: formatRank_def index_def split: option.splits)
  have src: "formatVID g b (Edge_SrcVID e) record = Inr ?src"
    using assms(1-4) by (simp add: formatVID_def index_in_range split: option.splits)
  have first: "index (Edge_Props e) 0 = Inr (Some p)"
    using assms(5) by (simp add: index_def)
  have cell: "index record k = Inr (record ! nat k)"
    using assms(7,8) by (simp add: index_in_range)
  have "\<forall>x \<in> set (map (\<lambda>(dst, val). dst @ ''#'' @ val) entries). CHR ''&'' \<notin> set x"
    using assms(12) by auto
  then have rows: "strings_Split (record ! nat k) (CHR ''&'')
      = map (\<lambda>(dst, val). dst @ ''#'' @ val) entries"
    using assms(11) by (simp add: assms(10) strings_Split_Join)
  have "\<forall>(dst, val) \<in> set entries. CHR ''#'' \<notin> set dst \<and> CHR ''#'' \<notin> set val"
    using assms(12) by auto
  then have "formatRows b ?src ?rank (strings_Split (record ! nat k) (CHR ''&''))
      = Inr (map (\<lambda>(dst, val).
                    '' '' @ ?src @ ''->'' @ TryConvInt64 b dst @ ?rank @ '':('' @ val @ '') '')
               entries)"
    unfolding rows by (rule formatRows_entries)
  then show ?thesis
    by (simp add: Edge_FormatValues_def rank src first cell assms(6))
qed

text \<open>
  As the claim is written, the edge scenario gives \<^verbatim>\<open>hash("A")->5@0:(9.5)\<close>. Its cell
  \<^verbatim>\<open>9.5\<close> has no \<^verbatim>\<open>#\<close>, and the compiler panics reading the second field.
\<close>

theorem Edge_FormatValues_scenario:
  \<open>Edge_FormatValues scenario_release scenario_base scenario_edge [''A'', ''5'', ''0'', ''9.5'']
     = Inl (Panic IndexOutOfRange)
   \<and> Edge_FormatValues scenario_release scenario_base scenario_edge [''A'', ''5'', ''0'', ''9.5'']
     \<noteq> Inr ''hash("A")->5@0:(9.5)''\<close>
  by (simp add: compile_defs string_defs scenario_defs deref_def)

text \<open>The edge of the scenario on a record whose last cell holds two entries.\<close>

theorem Edge_FormatValues_statements_witness:
  \<open>Edge_FormatValues scenario_release scenario_base scenario_edge
      [''A'', ''5'', ''0'', ''7#9.5&8#1.5'']
     = Inr '' hash("A")->7@0:(9.5) , hash("A")->8@0:(1.5) ''\<close>
  using Edge_FormatValues_statements
          [of scenario_edge "\<lparr> VID_Index = Some 0, VID_Function = Some ''hash'' \<rparr>" 0
              "[''A'', ''5'', ''0'', ''7#9.5&8#1.5'']"
              "\<lparr> Prop_Name = Some ''likeness'', Prop_Type = Some ''double'',
                 Prop_Index = Some 3 \<rparr>"
              "[]" 3 "[(''7'', ''9.5''), (''8'', ''1.5'')]" scenario_release scenario_base]
  by (simp add: scenario_defs string_defs)

section \<open>The version test of Parse\<close>

text \<open>No step of validation returns the error of the version test.\<close>

lemma Prop_validate_not_ErrVersion:
  "Prop_validateAndReset g b p k \<noteq> Inl (Error ErrVersion)"
  by (auto simp: Prop_validateAndReset_def andThen_eq_Inl Let_def deref_def
           split: option.splits if_splits)

lemma validateProps_not_ErrVersion: "validateProps g b k ps \<noteq> Inl (Error ErrVersion)"
  by (induction g b k ps rule: validateProps.induct)
     (auto simp: andThen_eq_Inl Prop_validate_not_ErrVersion)

lemma Tag_validate_not_ErrVersion: "Tag_validateAndReset g b t j \<noteq> Inl (Error ErrVersion)"
  by (auto simp: Tag_validateAndReset_def andThen_eq_Inl validateProps_not_ErrVersion
           split: option.splits)

lemma validateTags_not_ErrVersion: "validateTags g b j ts \<noteq> Inl (Error ErrVersion)"
  by (induction g b j ts rule: validateTags.induct)
     (auto simp: andThen_eq_Inl Tag_validate_not_ErrVersion)

lemma VID_validate_not_ErrVersion: "VID_validateAndReset g v d \<noteq> Inl (Error ErrVersion)"
  by (auto simp: VID_validateAndReset_def VID_checkFunction_def andThen_eq_Inl Let_def
           split: option.splits if_splits)

lemma Rank_validate_not_ErrVersion: "Rank_validateAndReset r d \<noteq> Inl (Error ErrVersion)"
  by (auto simp: Rank_validateAndReset_def Let_def split: option.splits if_splits)

lemma Vertex_validate_not_ErrVersion:
  "Vertex_validateAndReset g b v \<noteq> Inl (Error ErrVersion)"
  by (auto simp: Vertex_validateAndReset_def andThen_eq_Inl VID_validate_not_ErrVersion
                 validateTags_not_ErrVersion
           split: option.splits)

lemma Edge_validate_not_ErrVersion: "Edge_validateAndReset g b e \<noteq> Inl (Error ErrVersion)"
  by (auto simp: Edge_validateAndReset_def andThen_eq_Inl VID_validate_not_ErrVersion
                 Rank_validate_not_ErrVersion validateProps_not_ErrVersion
           split: option.splits if_splits)

lemma Schema_validate_not_ErrVersion:
  "Schema_validateAndReset g b s \<noteq> Inl (Error ErrVersion)"
  by (auto simp: Schema_validateAndReset_def andThen_eq_Inl Edge_validate_not_ErrVersion
                 Vertex_validate_not_ErrVersion deref_def
           split: option.splits if_splits)

lemma File_validate_not_ErrVersion:
  "File_validateAndReset g h b f dir \<noteq> Inl (Error ErrVersion)"
  by (auto simp: File_validateAndReset_def andThen_eq_Inl resolvePath_def
                 defaultFailDataPath_def CSVConfig_validateAndReset_def Let_def deref_def
                 Schema_validate_not_ErrVersion
           split: option.splits if_splits sum.splits)

lemma validateFiles_not_ErrVersion: "validateFiles g h b fs dir \<noteq> Inl (Error ErrVersion)"
  by (induction fs)
     (auto simp: andThen_eq_Inl File_validate_not_ErrVersion deref_def split: option.splits)

lemma Config_validate_not_ErrVersion:
  "YAMLConfig_ValidateAndReset g h b c dir \<noteq> Inl (Error ErrVersion)"
  by (auto simp: YAMLConfig_ValidateAndReset_def andThen_eq_Inl
                 NebulaClientSettings_validateAndReset_def
                 NebulaClientConnection_validateAndReset_def validateFiles_not_ErrVersion
           split: option.splits if_splits)

text \<open>
  C9. Once the configuration file is read and unmarshalled, the version test of
  \<^verbatim>\<open>Parse\<close> rejects nothing. With a version, whatever it is, the guard is false and
  \<^verbatim>\<open>Parse\<close> goes on to the validation. With no version, evaluating the guard
  dereferences the nil pointer and \<^verbatim>\<open>Parse\<close> panics. The guard is never true, and
  \<^verbatim>\<open>Parse\<close> never returns the error "The YAML configure version must be v1rc2".
\<close>

theorem Parse_version_check_never_rejects:
  assumes "ioutil_ReadFile h filename = Inr content"
    and "yaml_Unmarshal h content = Inr conf"
  shows "(\<forall>v. Config_Version conf = Some v \<longrightarrow>
            Parse_versionGuard conf = Inr False \<and>
            Parse g h b filename =
              (case filepath_Abs h (filepath_Dir h filename) of
                 Inl err \<Rightarrow> Inl (Error (ErrExternal err))
               | Inr path \<Rightarrow> YAMLConfig_ValidateAndReset g h b conf path))
       \<and> (Config_Version conf = None \<longrightarrow>
            Parse_versionGuard conf = Inl (Panic NilDereference) \<and>
            Parse g h b filename = Inl (Panic NilDereference))
       \<and> Parse_versionGuard conf \<noteq> Inr True
       \<and> Parse g h b filename \<noteq> Inl (Error ErrVersion)"
proof -
  have guard: "Parse_versionGuard conf =
      (case Config_Version conf of None \<Rightarrow> Inl (Panic NilDereference) | Some v \<Rightarrow> Inr False)"
    by (simp add: Parse_versionGuard_def split: option.splits)
  have parse: "Parse g h b filename =
      andThen (Parse_versionGuard conf) (\<lambda>mismatch.
        if mismatch then Inl (Error ErrVersion)
        else (case filepath_Abs h (filepath_Dir h filename) of
                Inl err \<Rightarrow> Inl (Error (ErrExternal err))
              | Inr path \<Rightarrow> YAMLConfig_ValidateAndReset g h b conf path))"
    using assms by (simp add: Parse_def)
  show ?thesis
    by (cases "Config_Version conf")
       (auto simp: parse guard Config_validate_not_ErrVersion split: sum.splits)
qed

text \<open>
  On the scenario machine: the configuration of version \<^verbatim>\<open>v0\<close> is accepted and
  resolved, the one with no version makes \<^verbatim>\<open>Parse\<close> panic.
\<close>

theorem Parse_version_check_witness:
  "Config_Version scenario_config = Some ''v0''
   \<and> ''v0'' \<noteq> version
   \<and> Parse scenario_release scenario_host scenario_base ''/data/v0.yaml''
     = Inr scenario_config_resolved
   \<and> Parse scenario_release scenario_host scenario_base ''/data/none.yaml''
     = Inl (Panic NilDereference)"
proof -
  have read_v0: "ioutil_ReadFile scenario_host ''/data/v0.yaml'' = Inr ''version: v0''"
    by (simp add: scenario_host_def)
  have unmarshal_v0: "yaml_Unmarshal scenario_host ''version: v0'' = Inr scenario_config"
    by (simp add: scenario_host_def)
  have read_none: "ioutil_ReadFile scenario_host ''/data/none.yaml'' = Inr []"
    by (simp add: scenario_host_def)
  have unmarshal_none:
    "yaml_Unmarshal scenario_host [] = Inr (scenario_config\<lparr>Config_Version := None\<rparr>)"
    by (simp add: scenario_host_def)
  have v0: "Config_Version scenario_config = Some ''v0''"
    by (simp add: scenario_config_def)
  have dir: "filepath_Abs scenario_host (filepath_Dir scenario_host ''/data/v0.yaml'')
               = Inr ''/data''"
    by (simp add: scenario_host_def)
  have "Parse scenario_release scenario_host scenario_base ''/data/v0.yaml''
          = Inr scenario_config_resolved"
    using Parse_version_check_never_rejects
            [OF read_v0 unmarshal_v0, of scenario_release scenario_base] v0
    by (simp add: dir scenario_config_resolves)
  moreover have "Parse scenario_release scenario_host scenario_base ''/data/none.yaml''
                   = Inl (Panic NilDereference)"
    using Parse_version_check_never_rejects
            [OF read_none unmarshal_none, of scenario_release scenario_base]
    by simp
  ultimately show ?thesis
    using v0 by (simp add: version_def)
qed

section \<open>Default column indices\<close>

lemma Prop_validate_index:
  "Prop_validateAndReset g b p d = Inr p' \<Longrightarrow>
   Prop_Index p' = Some (case Prop_Index p of None \<Rightarrow> d | Some i \<Rightarrow> i)"
  by (auto simp: Prop_validateAndReset_def andThen_eq_Inr Let_def deref_def
           split: option.splits if_splits)

lemma validateProps_length: "validateProps g b k ps = Inr ps' \<Longrightarrow> length ps' = length ps"
  by (induction g b k ps arbitrary: ps' rule: validateProps.induct)
     (auto simp: andThen_eq_Inr)

lemma validateProps_nth:
  "validateProps g b k ps = Inr ps' \<Longrightarrow> n < length ps \<Longrightarrow>
   resolvedIndex (ps ! n) (ps' ! n) (k + int n)"
proof (induction g b k ps arbitrary: ps' n rule: validateProps.induct)
  case (1 g b k)
  then show ?case by simp
next
  case (2 g b k ps)
  from "2.prems"(1) obtain qs where
    qs: "validateProps g b (k + 1) ps = Inr qs" and ps': "ps' = None # qs"
    by (auto simp: andThen_eq_Inr)
  show ?case
  proof (cases n)
    case 0
    then show ?thesis by (simp add: resolvedIndex_def ps')
  next
    case (Suc m)
    with "2.prems"(2) have "m < length ps" by simp
    from "2.IH" [OF qs this] show ?thesis
      by (simp add: Suc ps' add.assoc)
  qed
next
  case (3 g b k p ps)
  from "3.prems"(1) obtain p' qs where
    p': "Prop_validateAndReset g b p k = Inr p'"
    and qs: "validateProps g b (k + 1) ps = Inr qs" and ps': "ps' = Some p' # qs"
    by (auto simp: andThen_eq_Inr)
  show ?case
  proof (cases n)
    case 0
    then show ?thesis
      using Prop_validate_index [OF p'] by (simp add: resolvedIndex_def ps')
  next
    case (Suc m)
    with "3.prems"(2) have "m < length ps" by simp
    from "3.IH" [OF qs this] show ?thesis
      by (simp add: Suc ps' add.assoc)
  qed
qed

lemma Tag_validate_props:
  "Tag_validateAndReset g b t j = Inr t' \<Longrightarrow> validateProps g b j (Tag_Props t) = Inr (Tag_Props t')"
  by (auto simp: Tag_validateAndReset_def andThen_eq_Inr split: option.splits)

lemma validateTags_props:
  "validateTags g b j ts = Inr ts' \<Longrightarrow>
   length (tagProps ts') = length (tagProps ts) \<and>
   (\<forall>n < length (tagProps ts). resolvedIndex (tagProps ts ! n) (tagProps ts' ! n) (j + int n))"
proof (induction g b j ts arbitrary: ts' rule: validateTags.induct)
  case (1 g b j)
  then show ?case by (simp add: tagProps_def)
next
  case (2 g b j ts)
  then show ?case by (auto simp: andThen_eq_Inr tagProps_def)
next
  case (3 g b j t ts)
  from "3.prems" obtain t' us where
    t': "Tag_validateAndReset g b t j = Inr t'"
    and us: "validateTags g b (j + int (length (Tag_Props t'))) ts = Inr us"
    and ts': "ts' = Some t' # us"
    by (auto simp: andThen_eq_Inr)
  have props: "validateProps g b j (Tag_Props t) = Inr (Tag_Props t')"
    using t' by (rule Tag_validate_props)
  then have len: "length (Tag_Props t') = length (Tag_Props t)"
    by (rule validateProps_length)
  have rest: "length (tagProps us) = length (tagProps ts)"
    "\<And>n. n < length (tagProps ts) \<Longrightarrow>
       resolvedIndex (tagProps ts ! n) (tagProps us ! n)
         (j + int (length (Tag_Props t')) + int n)"
    using "3.IH" [OF us] by auto
  have split: "tagProps (Some t # ts) = Tag_Props t @ tagProps ts"
    "tagProps ts' = Tag_Props t' @ tagProps us"
    by (simp_all add: tagProps_def ts')
  show ?case
  proof (intro conjI allI impI)
    show "length (tagProps ts') = length (tagProps (Some t # ts))"
      by (simp add: split len rest(1))
  next
    fix n
    assume n: "n < length (tagProps (Some t # ts))"
    show "resolvedIndex (tagProps (Some t # ts) ! n) (tagProps ts' ! n) (j + int n)"
    proof (cases "n < length (Tag_Props t)")
      case True
      then show ?thesis
        using validateProps_nth [OF props True] by (simp add: split nth_append len)
    next
      case False
      then have "n - length (Tag_Props t) < length (tagProps ts)"
        using n by (simp add: split)
      from rest(2) [OF this] False show ?thesis
        by (simp add: split nth_append len)
    qed
  qed
qed

lemma VID_validate_index:
  "VID_validateAndReset g v d = Inr v' \<Longrightarrow>
   VID_Index v' = Some (case VID_Index v of None \<Rightarrow> d | Some i \<Rightarrow> i)"
  by (auto simp: VID_validateAndReset_def Let_def andThen_eq_Inr split: if_splits)

lemma Rank_validate_index:
  "Rank_validateAndReset r d = Inr r' \<Longrightarrow>
   Rank_Index r' = Some (case Rank_Index r of None \<Rightarrow> d | Some i \<Rightarrow> i)"
  by (auto simp: Rank_validateAndReset_def Let_def split: if_splits)

lemma Prop_validate_accepts:
  assumes "Prop_Type p \<noteq> None" and "\<not> unknownType g b p"
    and "case Prop_Index p of None \<Rightarrow> True | Some i \<Rightarrow> 0 \<le> i"
  shows "\<exists>p'. Prop_validateAndReset g b p k = Inr p'"
  using assms
  by (auto simp: Prop_validateAndReset_def unknownType_def Let_def split: option.splits)

lemma validateProps_accepts:
  "acceptableProps g b ps \<Longrightarrow> \<exists>ps'. validateProps g b k ps = Inr ps'"
proof (induction g b k ps rule: validateProps.induct)
  case (1 g b k)
  show ?case by simp
next
  case (2 g b k ps)
  then show ?case by (auto simp: acceptableProps_def)
next
  case (3 g b k p ps)
  from "3.prems" obtain p' where "Prop_validateAndReset g b p k = Inr p'"
    using Prop_validate_accepts [of p g b k] by (auto simp: acceptableProps_def)
  moreover from "3.prems" have "acceptableProps g b ps"
    by (simp add: acceptableProps_def)
  then obtain ps' where "validateProps g b (k + 1) ps = Inr ps'"
    using "3.IH" by blast
  ultimately show ?case by simp
qed

lemma Tag_validate_accepts:
  "Tag_Name t \<noteq> None \<Longrightarrow> acceptableProps g b (Tag_Props t) \<Longrightarrow>
   \<exists>t'. Tag_validateAndReset g b t j = Inr t'"
  using validateProps_accepts [of g b "Tag_Props t" j]
  by (auto simp: Tag_validateAndReset_def)

lemma validateTags_accepts:
  "acceptableTags g b ts \<Longrightarrow> \<exists>ts'. validateTags g b j ts = Inr ts'"
proof (induction g b j ts rule: validateTags.induct)
  case (1 g b j)
  show ?case by simp
next
  case (2 g b j ts)
  then show ?case by (auto simp: acceptableTags_def)
next
  case (3 g b j t ts)
  from "3.prems" obtain t' where t': "Tag_validateAndReset g b t j = Inr t'"
    using Tag_validate_accepts [of t g b j] by (auto simp: acceptableTags_def)
  from "3.prems" have "acceptableTags g b ts"
    by (simp add: acceptableTags_def)
  then obtain ts' where "validateTags g b (j + int (length (Tag_Props t'))) ts = Inr ts'"
    using "3.IH" [of t'] by blast
  with t' show ?case by simp
qed

lemma VID_step_accepts:
  "\<not> badVID g vp \<Longrightarrow> 0 \<le> d \<Longrightarrow>
   \<exists>vid. (case vp of Some w \<Rightarrow> VID_validateAndReset g w d
             | None \<Rightarrow> Inr \<lparr>VID_Index = Some d', VID_Function = None\<rparr>) = Inr vid"
  by (auto simp: badVID_def VID_validateAndReset_def VID_checkFunction_def Let_def
           split: option.splits)

lemma Rank_step_accepts:
  "\<not> badRank rp \<Longrightarrow>
   \<exists>rs. (case rp of
            Some r \<Rightarrow> andThen (Rank_validateAndReset r 2) (\<lambda>r'. Inr (Some r', 3::int))
          | None \<Rightarrow> if w = Some True then Inr (Some \<lparr>Rank_Index = Some 2\<rparr>, 3)
                    else Inr (None, 2)) = Inr rs"
  by (auto simp: badRank_def Rank_validateAndReset_def Let_def split: option.splits)

lemma Vertex_validate_accepts:
  assumes "acceptableVertex g b v"
  shows "\<exists>v'. Vertex_validateAndReset g b v = Inr v'"
proof -
  from assms obtain vid where
    "(case Vertex_VID v of Some w \<Rightarrow> VID_validateAndReset g w 0
      | None \<Rightarrow> Inr \<lparr>VID_Index = Some 0, VID_Function = None\<rparr>) = Inr vid"
    using VID_step_accepts [of g "Vertex_VID v" 0 0] by (auto simp: acceptableVertex_def)
  moreover from assms obtain tags where "validateTags g b 1 (Vertex_Tags v) = Inr tags"
    using validateTags_accepts [of g b "Vertex_Tags v" 1] by (auto simp: acceptableVertex_def)
  ultimately show ?thesis
    by (simp add: Vertex_validateAndReset_def)
qed

lemma Edge_validate_accepts:
  assumes "acceptableEdge g b e"
  shows "\<exists>e'. Edge_validateAndReset g b e = Inr e'"
proof -
  from assms obtain name where name: "Edge_Name e = Some name"
    by (auto simp: acceptableEdge_def)
  from assms obtain src where src:
    "(case Edge_SrcVID e of Some w \<Rightarrow> VID_validateAndReset g w 0
      | None \<Rightarrow> Inr \<lparr>VID_Index = Some 0, VID_Function = None\<rparr>) = Inr src"
    using VID_step_accepts [of g "Edge_SrcVID e" 0 0] by (auto simp: acceptableEdge_def)
  from assms obtain dst where dst:
    "(case Edge_DstVID e of Some w \<Rightarrow> VID_validateAndReset g w 1
      | None \<Rightarrow> Inr \<lparr>VID_Index = Some 1, VID_Function = None\<rparr>) = Inr dst"
    using VID_step_accepts [of g "Edge_DstVID e" 1 1] by (auto simp: acceptableEdge_def)
  from assms obtain rank start where rank:
    "(case Edge_Rank e of
        Some r \<Rightarrow> andThen (Rank_validateAndReset r 2) (\<lambda>r'. Inr (Some r', 3::int))
      | None \<Rightarrow> if Edge_WithRanking e = Some True
                then Inr (Some \<lparr>Rank_Index = Some 2\<rparr>, 3)
                else Inr (None, 2)) = Inr (rank, start)"
    using Rank_step_accepts [of "Edge_Rank e" "Edge_WithRanking e"]
    by (auto simp: acceptableEdge_def)
  from assms obtain ps where "validateProps g b start (Edge_Props e) = Inr ps"
    using validateProps_accepts [of g b "Edge_Props e" start]
    by (auto simp: acceptableEdge_def)
  then show ?thesis
    by (simp add: Edge_validateAndReset_def name src dst rank)
qed

text \<open>
  C4. Resolution succeeds on every vertex and every edge that it accepts: no bad VID or
  rank, names present, and every property with a known type and no negative index.
  When it succeeds, an index that was left out has its default and an index that was
  given is unchanged. The VID of a vertex defaults to 0; the property at position \<open>n\<close>
  of the properties of the vertex, counted across the tags in their order, defaults to
  \<open>1 + n\<close>. The source VID of an edge defaults to 0 and the destination VID to 1;
  the rank defaults to 2 and is there only if the edge has a rank section or asks for
  ranking; the property at position \<open>n\<close> defaults to \<open>2 + n\<close> without a rank and
  \<open>3 + n\<close> with one.
\<close>

theorem default_column_indices:
  "(acceptableVertex g b v \<longrightarrow> (\<exists>w. Vertex_validateAndReset g b v = Inr w))
   \<and> (acceptableEdge g b e \<longrightarrow> (\<exists>w. Edge_validateAndReset g b e = Inr w))
   \<and> (Vertex_validateAndReset g b v = Inr v' \<longrightarrow>
      (\<exists>vid. Vertex_VID v' = Some vid \<and>
             VID_Index vid = Some (case Vertex_VID v of
                                     None \<Rightarrow> 0
                                   | Some w \<Rightarrow> (case VID_Index w of None \<Rightarrow> 0 | Some i \<Rightarrow> i)))
      \<and> length (tagProps (Vertex_Tags v')) = length (tagProps (Vertex_Tags v))
      \<and> (\<forall>n < length (tagProps (Vertex_Tags v)).
            resolvedIndex (tagProps (Vertex_Tags v) ! n) (tagProps (Vertex_Tags v') ! n)
              (1 + int n)))
   \<and> (Edge_validateAndReset g b e = Inr e' \<longrightarrow>
      (\<exists>src. Edge_SrcVID e' = Some src \<and>
             VID_Index src = Some (case Edge_SrcVID e of
                                     None \<Rightarrow> 0
                                   | Some w \<Rightarrow> (case VID_Index w of None \<Rightarrow> 0 | Some i \<Rightarrow> i)))
      \<and> (\<exists>dst. Edge_DstVID e' = Some dst \<and>
             VID_Index dst = Some (case Edge_DstVID e of
                                     None \<Rightarrow> 1
                                   | Some w \<Rightarrow> (case VID_Index w of None \<Rightarrow> 1 | Some i \<Rightarrow> i)))
      \<and> (case Edge_Rank e of
            Some r \<Rightarrow>
              (\<exists>r'. Edge_Rank e' = Some r' \<and>
                    Rank_Index r' = Some (case Rank_Index r of None \<Rightarrow> 2 | Some i \<Rightarrow> i))
          | None \<Rightarrow>
              Edge_Rank e' =
                (if Edge_WithRanking e = Some True then Some \<lparr>Rank_Index = Some 2\<rparr> else None))
      \<and> length (Edge_Props e') = length (Edge_Props e)
      \<and> (\<forall>n < length (Edge_Props e).
            resolvedIndex (Edge_Props e ! n) (Edge_Props e' ! n)
              ((if Edge_Rank e' = None then 2 else 3) + int n)))"
proof (intro conjI impI)
  assume "acceptableVertex g b v"
  then show "\<exists>w. Vertex_validateAndReset g b v = Inr w"
    by (rule Vertex_validate_accepts)
next
  assume "acceptableEdge g b e"
  then show "\<exists>w. Edge_validateAndReset g b e = Inr w"
    by (rule Edge_validate_accepts)
next
  assume ok: "Vertex_validateAndReset g b v = Inr v'"
  then obtain vid tags where
    vid: "(case Vertex_VID v of
             Some w \<Rightarrow> VID_validateAndReset g w 0
           | None \<Rightarrow> Inr \<lparr>VID_Index = Some 0, VID_Function = None\<rparr>) = Inr vid"
    and tags: "validateTags g b 1 (Vertex_Tags v) = Inr tags"
    and v': "v' = v\<lparr>Vertex_VID := Some vid, Vertex_Tags := tags\<rparr>"
    by (auto simp: Vertex_validateAndReset_def andThen_eq_Inr)
  show "\<exists>vid. Vertex_VID v' = Some vid \<and>
             VID_Index vid = Some (case Vertex_VID v of
                                     None \<Rightarrow> 0
                                   | Some w \<Rightarrow> (case VID_Index w of None \<Rightarrow> 0 | Some i \<Rightarrow> i))"
    using vid by (auto simp: v' split: option.splits dest: VID_validate_index)
  show "length (tagProps (Vertex_Tags v')) = length (tagProps (Vertex_Tags v))"
    using validateTags_props [OF tags] by (simp add: v')
  show "\<forall>n < length (tagProps (Vertex_Tags v)).
            resolvedIndex (tagProps (Vertex_Tags v) ! n) (tagProps (Vertex_Tags v') ! n)
              (1 + int n)"
    using validateTags_props [OF tags] by (simp add: v')
next
  assume ok: "Edge_validateAndReset g b e = Inr e'"
  then obtain src dst rank start ps where
    src: "(case Edge_SrcVID e of
             Some w \<Rightarrow> VID_validateAndReset g w 0
           | None \<Rightarrow> Inr \<lparr>VID_Index = Some 0, VID_Function = None\<rparr>) = Inr src"
    and dst: "(case Edge_DstVID e of
             Some w \<Rightarrow> VID_validateAndReset g w 1
           | None \<Rightarrow> Inr \<lparr>VID_Index = Some 1, VID_Function = None\<rparr>) = Inr dst"
    and rank: "(case Edge_Rank e of
                  Some r \<Rightarrow> andThen (Rank_validateAndReset r 2) (\<lambda>r'. Inr (Some r', 3))
                | None \<Rightarrow>
                    if Edge_WithRanking e = Some True
                    then Inr (Some \<lparr>Rank_Index = Some 2\<rparr>, 3)
                    else Inr (None, 2)) = Inr (rank, start)"
    and ps: "validateProps g b start (Edge_Props e) = Inr ps"
    and e': "e' = e\<lparr>Edge_SrcVID := Some src, Edge_DstVID := Some dst,
                     Edge_Rank := rank, Edge_Props := ps\<rparr>"
    by (auto simp: Edge_validateAndReset_def andThen_eq_Inr split: option.splits)
  have start: "start = (if rank = None then 2 else 3)"
    using rank by (auto simp: andThen_eq_Inr split: option.splits if_splits)
  show "\<exists>src. Edge_SrcVID e' = Some src \<and>
             VID_Index src = Some (case Edge_SrcVID e of
                                     None \<Rightarrow> 0
                                   | Some w \<Rightarrow> (case VID_Index w of None \<Rightarrow> 0 | Some i \<Rightarrow> i))"
    using src by (auto simp: e' split: option.splits dest: VID_validate_index)
  show "\<exists>dst. Edge_DstVID e' = Some dst \<and>
             VID_Index dst = Some (case Edge_DstVID e of
                                     None \<Rightarrow> 1
                                   | Some w \<Rightarrow> (case VID_Index w of None \<Rightarrow> 1 | Some i \<Rightarrow> i))"
    using dst by (auto simp: e' split: option.splits dest: VID_validate_index)
  show "case Edge_Rank e of
            Some r \<Rightarrow>
              (\<exists>r'. Edge_Rank e' = Some r' \<and>
                    Rank_Index r' = Some (case Rank_Index r of None \<Rightarrow> 2 | Some i \<Rightarrow> i))
          | None \<Rightarrow>
              Edge_Rank e' =
                (if Edge_WithRanking e = Some True then Some \<lparr>Rank_Index = Some 2\<rparr> else None)"
    using rank
    by (auto simp: e' andThen_eq_Inr split: option.splits if_splits dest: Rank_validate_index)
  show "length (Edge_Props e') = length (Edge_Props e)"
    using validateProps_length [OF ps] by (simp add: e')
  show "\<forall>n < length (Edge_Props e).
            resolvedIndex (Edge_Props e ! n) (Edge_Props e' ! n)
              ((if Edge_Rank e' = None then 2 else 3) + int n)"
    using validateProps_nth [OF ps] by (simp add: e' start)
qed

text \<open>
  The vertex and the edge of the scenarios, resolved from no index at all; and an edge
  with every index written, which resolution accepts and returns as it is.
\<close>

theorem default_column_indices_witness:
  "acceptableVertex scenario_release scenario_base scenario_vertex_raw
   \<and> Vertex_validateAndReset scenario_release scenario_base scenario_vertex_raw
     = Inr scenario_vertex
   \<and> resolvedIndex (tagProps (Vertex_Tags scenario_vertex_raw) ! 1)
        (tagProps (Vertex_Tags scenario_vertex) ! 1) 2
   \<and> acceptableEdge scenario_release scenario_base scenario_edge_raw
   \<and> Edge_validateAndReset scenario_release scenario_base scenario_edge_raw
     = Inr scenario_edge
   \<and> Edge_Rank scenario_edge = Some \<lparr>Rank_Index = Some 2\<rparr>
   \<and> resolvedIndex (Edge_Props scenario_edge_raw ! 0) (Edge_Props scenario_edge ! 0) 3
   \<and> acceptableEdge scenario_release scenario_base scenario_edge_explicit
   \<and> (\<exists>w. Edge_validateAndReset scenario_release scenario_base scenario_edge_explicit
            = Inr w)
   \<and> Edge_validateAndReset scenario_release scenario_base scenario_edge_explicit
     = Inr scenario_edge_explicit
   \<and> resolvedIndex (Edge_Props scenario_edge_explicit ! 0)
        (Edge_Props scenario_edge_explicit ! 0) 3"
proof -
  let ?g = scenario_release and ?b = scenario_base
  have av: "acceptableVertex ?g ?b scenario_vertex_raw"
    by (simp add: acceptableVertex_def acceptableTags_def acceptableProps_def badVID_def
          unknownType_def scenario_defs string_defs)
  have ae: "acceptableEdge ?g ?b scenario_edge_raw"
    by (simp add: acceptableEdge_def acceptableProps_def badVID_def badRank_def
          unknownType_def scenario_defs string_defs)
  have ax: "acceptableEdge ?g ?b scenario_edge_explicit"
    by (simp add: acceptableEdge_def acceptableProps_def badVID_def badRank_def
          unknownType_def scenario_defs string_defs)
  have v: "Vertex_validateAndReset ?g ?b scenario_vertex_raw = Inr scenario_vertex"
    by (simp add: resolution_defs scenario_defs string_defs)
  have e: "Edge_validateAndReset ?g ?b scenario_edge_raw = Inr scenario_edge"
    by (simp add: resolution_defs scenario_defs string_defs)
  have x: "Edge_validateAndReset ?g ?b scenario_edge_explicit = Inr scenario_edge_explicit"
    by (simp add: resolution_defs scenario_defs string_defs)
  note t = default_column_indices
             [of ?g ?b scenario_vertex_raw scenario_edge_raw scenario_vertex scenario_edge]
  note u = default_column_indices
             [of ?g ?b scenario_vertex_raw scenario_edge_explicit scenario_vertex
                 scenario_edge_explicit]
  from t v have "\<forall>n < length (tagProps (Vertex_Tags scenario_vertex_raw)).
      resolvedIndex (tagProps (Vertex_Tags scenario_vertex_raw) ! n)
        (tagProps (Vertex_Tags scenario_vertex) ! n) (1 + int n)"
    by blast
  then have "1 < length (tagProps (Vertex_Tags scenario_vertex_raw)) \<longrightarrow>
      resolvedIndex (tagProps (Vertex_Tags scenario_vertex_raw) ! 1)
        (tagProps (Vertex_Tags scenario_vertex) ! 1) (1 + int 1)"
    by blast
  then have vertex: "resolvedIndex (tagProps (Vertex_Tags scenario_vertex_raw) ! 1)
        (tagProps (Vertex_Tags scenario_vertex) ! 1) 2"
    by (simp add: tagProps_def scenario_vertex_raw_def)
  from t e have rank: "Edge_Rank scenario_edge = Some \<lparr>Rank_Index = Some 2\<rparr>"
    by (simp add: scenario_edge_raw_def)
  from t e have "\<forall>n < length (Edge_Props scenario_edge_raw).
      resolvedIndex (Edge_Props scenario_edge_raw ! n) (Edge_Props scenario_edge ! n)
        ((if Edge_Rank scenario_edge = None then 2 else 3) + int n)"
    by blast
  then have "0 < length (Edge_Props scenario_edge_raw) \<longrightarrow>
      resolvedIndex (Edge_Props scenario_edge_raw ! 0) (Edge_Props scenario_edge ! 0)
        ((if Edge_Rank scenario_edge = None then 2 else 3) + int 0)"
    by blast
  then have edge: "resolvedIndex (Edge_Props scenario_edge_raw ! 0) (Edge_Props scenario_edge ! 0) 3"
    by (simp add: rank) (simp add: scenario_edge_raw_def)
  from u ax have some: "\<exists>w. Edge_validateAndReset ?g ?b scenario_edge_explicit = Inr w"
    by blast
  from u x have "\<forall>n < length (Edge_Props scenario_edge_explicit).
      resolvedIndex (Edge_Props scenario_edge_explicit ! n)
        (Edge_Props scenario_edge_explicit ! n)
        ((if Edge_Rank scenario_edge_explicit = None then 2 else 3) + int n)"
    by blast
  then have "0 < length (Edge_Props scenario_edge_explicit) \<longrightarrow>
      resolvedIndex (Edge_Props scenario_edge_explicit ! 0)
        (Edge_Props scenario_edge_explicit ! 0)
        ((if Edge_Rank scenario_edge_explicit = None then 2 else 3) + int 0)"
    by blast
  then have kept: "resolvedIndex (Edge_Props scenario_edge_explicit ! 0)
        (Edge_Props scenario_edge_explicit ! 0) 3"
    by (simp add: scenario_edge_explicit_def)
  from av v vertex ae e rank edge ax some x kept show ?thesis by simp
qed

section \<open>Missing bodies and nil entries\<close>

lemma validateProps_append:
  "validateProps g b k (ps @ qs) =
     andThen (validateProps g b k ps) (\<lambda>ps'.
     andThen (validateProps g b (k + int (length ps)) qs) (\<lambda>qs'. Inr (ps' @ qs')))"
proof (induction g b k ps rule: validateProps.induct)
  case (1 g b k)
  show ?case by (cases "validateProps g b k qs") simp_all
next
  case (2 g b k ps)
  show ?case
    by (simp add: "2.IH" andThen_def add.assoc split: sum.splits)
next
  case (3 g b k p ps)
  show ?case
    by (simp add: "3.IH" andThen_def add.assoc split: sum.splits)
qed

lemma validateTags_append:
  "validateTags g b j (ts @ us) =
     andThen (validateTags g b j ts) (\<lambda>ts'.
     andThen (validateTags g b (j + int (length (tagProps ts'))) us) (\<lambda>us'. Inr (ts' @ us')))"
proof (induction g b j ts rule: validateTags.induct)
  case (1 g b j)
  show ?case by (cases "validateTags g b j us") (simp_all add: tagProps_def)
next
  case (2 g b j ts)
  show ?case
    by (cases "validateTags g b j ts") (auto simp: "2.IH" tagProps_def andThen_def split: sum.splits)
next
  case (3 g b j t ts)
  show ?case
    by (cases "Tag_validateAndReset g b t j")
       (auto simp: "3.IH" tagProps_def andThen_def add.assoc split: sum.splits)
qed

text \<open>
  C6, as amended. A schema of type edge with no edge body, or of type vertex with no
  vertex body, resolves with no error and is returned as it is. A nil entry of a list
  of properties or of tags is stepped over: the entries before it and after it are
  resolved as they are without it (a nil property still takes up a default index), and
  the entry stays nil in the result.
\<close>

theorem nil_entries_are_skipped:
  "(Schema_Type s = Some ty \<and> strings_ToLower g ty = ''edge'' \<and> Schema_Edge s = None \<longrightarrow>
      Schema_validateAndReset g b s = Inr s)
   \<and> (Schema_Type s = Some ty \<and> strings_ToLower g ty = ''vertex'' \<and> Schema_Vertex s = None \<longrightarrow>
      Schema_validateAndReset g b s = Inr s)
   \<and> validateProps g b k (ps @ None # qs) =
       andThen (validateProps g b k ps) (\<lambda>ps'.
       andThen (validateProps g b (k + int (length ps) + 1) qs) (\<lambda>qs'.
       Inr (ps' @ None # qs')))
   \<and> validateTags g b j (ts @ None # us) =
       andThen (validateTags g b j ts) (\<lambda>ts'.
       andThen (validateTags g b (j + int (length (tagProps ts'))) us) (\<lambda>us'.
       Inr (ts' @ None # us')))"
proof (intro conjI impI)
  show "validateProps g b k (ps @ None # qs) =
       andThen (validateProps g b k ps) (\<lambda>ps'.
       andThen (validateProps g b (k + int (length ps) + 1) qs) (\<lambda>qs'.
       Inr (ps' @ None # qs')))"
    by (cases "validateProps g b k ps"; cases "validateProps g b (k + int (length ps) + 1) qs")
       (simp_all add: validateProps_append)
  show "validateTags g b j (ts @ None # us) =
       andThen (validateTags g b j ts) (\<lambda>ts'.
       andThen (validateTags g b (j + int (length (tagProps ts'))) us) (\<lambda>us'.
       Inr (ts' @ None # us')))"
    by (cases "validateTags g b j ts")
       (auto simp: validateTags_append andThen_def split: sum.splits)
qed (simp_all add: Schema_validateAndReset_def)

text \<open>
  As the claim is written, such a schema makes resolution return an error. A schema of
  type edge with no body, and an edge with a nil property, both resolve.
\<close>

theorem missing_body_resolves:
  "Schema_validateAndReset scenario_release scenario_base
      \<lparr> Schema_Type = Some ''edge'', Schema_Edge = None, Schema_Vertex = None \<rparr>
     = Inr \<lparr> Schema_Type = Some ''edge'', Schema_Edge = None, Schema_Vertex = None \<rparr>
   \<and> Edge_validateAndReset scenario_release scenario_base (scenario_edge_raw\<lparr>Edge_Props := [None]\<rparr>)
     = Inr (scenario_edge\<lparr>Edge_Props := [None]\<rparr>)"
  by (simp add: resolution_defs scenario_defs string_defs)

text \<open>A vertex schema with no body, a nil property and a nil tag.\<close>

theorem nil_entries_are_skipped_witness:
  "Schema_validateAndReset scenario_release scenario_base
      \<lparr> Schema_Type = Some ''VERTEX'', Schema_Edge = None, Schema_Vertex = None \<rparr>
     = Inr \<lparr> Schema_Type = Some ''VERTEX'', Schema_Edge = None, Schema_Vertex = None \<rparr>
   \<and> validateProps scenario_release scenario_base 3
        [None, Some \<lparr> Prop_Name = Some ''likeness'', Prop_Type = Some ''double'',
                      Prop_Index = None \<rparr>]
     = Inr [None, Some \<lparr> Prop_Name = Some ''likeness'', Prop_Type = Some ''double'',
                           Prop_Index = Some 4 \<rparr>]
   \<and> validateTags scenario_release scenario_base 1 (None # Vertex_Tags scenario_vertex_raw)
     = Inr (None # Vertex_Tags scenario_vertex)"
  using nil_entries_are_skipped
          [of "\<lparr> Schema_Type = Some ''VERTEX'', Schema_Edge = None, Schema_Vertex = None \<rparr>"
              "''VERTEX''" scenario_release scenario_base 3 "[]"
              "[Some \<lparr> Prop_Name = Some ''likeness'', Prop_Type = Some ''double'',
                       Prop_Index = None \<rparr>]"
              1 "[]" "Vertex_Tags scenario_vertex_raw"]
  by (simp add: resolution_defs scenario_defs string_defs tagProps_def)

section \<open>What resolution rejects\<close>

lemma returnsError_simps [simp]:
  "returnsError (Inl (Error err))" "\<not> returnsError (Inl (Fatal ft))"
  "\<not> returnsError (Inl (Panic pn))" "\<not> returnsError (Inr x)"
  by (simp_all add: returnsError_def)

lemma returnsError_andThen:
  "returnsError (andThen r k) \<longleftrightarrow> returnsError r \<or> (\<exists>x. r = Inr x \<and> returnsError (k x))"
  by (cases r) (auto simp: returnsError_def)

lemma returns_simps [simp]:
  "returns (Inl (Error err))" "\<not> returns (Inl (Fatal ft))"
  "\<not> returns (Inl (Panic pn))" "returns (Inr x)"
  by (simp_all add: returns_def)

lemma returns_cases: "returns r \<longleftrightarrow> returnsError r \<or> (\<exists>x. r = Inr x)"
  by (auto simp: returns_def returnsError_def split: sum.splits failure.splits)

lemma returns_andThen:
  "returns r \<Longrightarrow> (\<And>x. r = Inr x \<Longrightarrow> returns (k x)) \<Longrightarrow> returns (andThen r k)"
  by (cases r) (auto simp: returns_def split: failure.splits)

lemma VID_validate_returns: "returns (VID_validateAndReset g v d)"
  by (simp add: VID_validateAndReset_def VID_checkFunction_def Let_def split: option.splits)

lemma VID_validate_bad: "badVID g (Some v) \<Longrightarrow> returnsError (VID_validateAndReset g v d)"
  by (auto simp: badVID_def VID_validateAndReset_def VID_checkFunction_def Let_def
           split: option.splits)

lemma Rank_validate_returns: "returns (Rank_validateAndReset r d)"
  by (simp add: Rank_validateAndReset_def Let_def)

lemma Rank_validate_bad: "badRank (Some r) \<Longrightarrow> returnsError (Rank_validateAndReset r d)"
  by (auto simp: badRank_def Rank_validateAndReset_def Let_def split: option.splits)

lemma Prop_validate_returns:
  "Prop_Type p \<noteq> None \<Longrightarrow> (case Prop_Index p of None \<Rightarrow> True | Some i \<Rightarrow> 0 \<le> i) \<Longrightarrow>
   returns (Prop_validateAndReset g b p k)"
  by (auto simp: Prop_validateAndReset_def Let_def split: option.splits)

lemma Prop_validate_unknown:
  "unknownType g b p \<Longrightarrow> returnsError (Prop_validateAndReset g b p k)"
  by (auto simp: unknownType_def Prop_validateAndReset_def Let_def split: option.splits)

lemma validateProps_returns: "typedAndIndexed ps \<Longrightarrow> returns (validateProps g b k ps)"
proof (induction g b k ps rule: validateProps.induct)
  case (1 g b k)
  show ?case by simp
next
  case (2 g b k ps)
  then show ?case by (auto simp: typedAndIndexed_def intro!: returns_andThen)
next
  case (3 g b k p ps)
  then show ?case
    by (auto simp: typedAndIndexed_def intro!: returns_andThen Prop_validate_returns)
qed

lemma validateProps_unknown:
  "typedAndIndexed ps \<Longrightarrow> Some p \<in> set ps \<Longrightarrow> unknownType g b p \<Longrightarrow>
   returnsError (validateProps g b k ps)"
proof (induction g b k ps rule: validateProps.induct)
  case (1 g b k)
  then show ?case by simp
next
  case (2 g b k ps)
  then show ?case by (auto simp: typedAndIndexed_def returnsError_andThen)
next
  case (3 g b k q ps)
  have q: "returns (Prop_validateAndReset g b q k)"
    using "3.prems"(1) by (auto simp: typedAndIndexed_def intro: Prop_validate_returns)
  show ?case
  proof (cases "p = q")
    case True
    with "3.prems"(3) show ?thesis
      by (simp add: returnsError_andThen Prop_validate_unknown)
  next
    case False
    have "typedAndIndexed ps"
      using "3.prems"(1) by (simp add: typedAndIndexed_def)
    moreover have "Some p \<in> set ps"
      using "3.prems"(2) False by simp
    ultimately have "returnsError (validateProps g b (k + 1) ps)"
      using "3.prems"(3) by (rule "3.IH")
    with q show ?thesis
      by (auto simp: returnsError_andThen returns_cases)
  qed
qed

lemma typedAndIndexed_append [simp]:
  "typedAndIndexed (ps @ qs) \<longleftrightarrow> typedAndIndexed ps \<and> typedAndIndexed qs"
  by (simp add: typedAndIndexed_def)

lemma tagProps_Cons_Some [simp]: "tagProps (Some t # ts) = Tag_Props t @ tagProps ts"
  by (simp add: tagProps_def)

lemma tagProps_Cons_None [simp]: "tagProps (None # ts) = tagProps ts"
  by (simp add: tagProps_def)

lemma tagProps_Nil [simp]: "tagProps [] = []"
  by (simp add: tagProps_def)

lemma Tag_validate_returns:
  "typedAndIndexed (Tag_Props t) \<Longrightarrow> returns (Tag_validateAndReset g b t j)"
  by (auto simp: Tag_validateAndReset_def split: option.splits
           intro!: returns_andThen validateProps_returns)

lemma Tag_validate_unknown:
  "typedAndIndexed (Tag_Props t) \<Longrightarrow> Some p \<in> set (Tag_Props t) \<Longrightarrow> unknownType g b p \<Longrightarrow>
   returnsError (Tag_validateAndReset g b t j)"
  by (auto simp: Tag_validateAndReset_def returnsError_andThen split: option.splits
           dest: validateProps_unknown)

lemma validateTags_returns: "typedAndIndexed (tagProps ts) \<Longrightarrow> returns (validateTags g b j ts)"
proof (induction g b j ts rule: validateTags.induct)
  case (1 g b j)
  show ?case by simp
next
  case (2 g b j ts)
  then show ?case by (auto intro!: returns_andThen)
next
  case (3 g b j t ts)
  then show ?case by (auto intro!: returns_andThen Tag_validate_returns)
qed

lemma validateTags_unknown:
  "typedAndIndexed (tagProps ts) \<Longrightarrow> Some p \<in> set (tagProps ts) \<Longrightarrow> unknownType g b p \<Longrightarrow>
   returnsError (validateTags g b j ts)"
proof (induction g b j ts rule: validateTags.induct)
  case (1 g b j)
  then show ?case by simp
next
  case (2 g b j ts)
  then show ?case by (auto simp: returnsError_andThen)
next
  case (3 g b j t ts)
  have t: "returns (Tag_validateAndReset g b t j)"
    using "3.prems"(1) by (simp add: Tag_validate_returns)
  show ?case
  proof (cases "Some p \<in> set (Tag_Props t)")
    case True
    with "3.prems" show ?thesis
      by (simp add: returnsError_andThen Tag_validate_unknown)
  next
    case False
    with "3.prems" have rest: "typedAndIndexed (tagProps ts)" "Some p \<in> set (tagProps ts)"
      by simp_all
    have "returnsError (validateTags g b (j + int (length (Tag_Props x))) ts)" for x :: Tag
      using rest "3.prems"(3) by (rule "3.IH")
    with t show ?thesis
      by (auto simp: returnsError_andThen returns_cases)
  qed
qed

lemma VID_step_returns:
  "returns (case vp of Some w \<Rightarrow> VID_validateAndReset g w d
            | None \<Rightarrow> Inr \<lparr>VID_Index = Some d', VID_Function = None\<rparr>)"
  by (simp add: VID_validate_returns split: option.splits)

lemma VID_step_bad:
  "badVID g vp \<Longrightarrow>
   returnsError (case vp of Some w \<Rightarrow> VID_validateAndReset g w d
                 | None \<Rightarrow> Inr \<lparr>VID_Index = Some d', VID_Function = None\<rparr>)"
  by (cases vp) (simp_all add: VID_validate_bad, simp add: badVID_def)

lemma Rank_step_returns:
  "returns (case rp of
              Some r \<Rightarrow> andThen (Rank_validateAndReset r 2) (\<lambda>r'. Inr (Some r', 3::int))
            | None \<Rightarrow> if w = Some True then Inr (Some \<lparr>Rank_Index = Some 2\<rparr>, 3)
                      else Inr (None, 2))"
  by (auto split: option.splits intro!: returns_andThen Rank_validate_returns)

lemma Rank_step_bad:
  "badRank rp \<Longrightarrow>
   returnsError (case rp of
              Some r \<Rightarrow> andThen (Rank_validateAndReset r 2) (\<lambda>r'. Inr (Some r', 3::int))
            | None \<Rightarrow> if w = Some True then Inr (Some \<lparr>Rank_Index = Some 2\<rparr>, 3)
                      else Inr (None, 2))"
  by (cases rp) (simp add: badRank_def, simp add: returnsError_andThen Rank_validate_bad)

lemma Edge_validate_steps:
  "Edge_validateAndReset g b e =
     (case Edge_Name e of
        None \<Rightarrow> Inl (Error ErrNoEdgeName)
      | Some _ \<Rightarrow>
          andThen (case Edge_SrcVID e of
                     Some vid \<Rightarrow> VID_validateAndReset g vid 0
                   | None \<Rightarrow> Inr \<lparr>VID_Index = Some 0, VID_Function = None\<rparr>) (\<lambda>src.
          andThen (case Edge_DstVID e of
                     Some vid \<Rightarrow> VID_validateAndReset g vid 1
                   | None \<Rightarrow> Inr \<lparr>VID_Index = Some 1, VID_Function = None\<rparr>) (\<lambda>dst.
          andThen (case Edge_Rank e of
                     Some r \<Rightarrow> andThen (Rank_validateAndReset r 2) (\<lambda>r'. Inr (Some r', 3))
                   | None \<Rightarrow>
                       if Edge_WithRanking e = Some True
                       then Inr (Some \<lparr>Rank_Index = Some 2\<rparr>, 3)
                       else Inr (None, 2)) (\<lambda>rs.
          andThen (validateProps g b (snd rs) (Edge_Props e)) (\<lambda>ps.
          Inr (e\<lparr>Edge_SrcVID := Some src, Edge_DstVID := Some dst,
                 Edge_Rank := fst rs, Edge_Props := ps\<rparr>))))))"
  by (simp only: Edge_validateAndReset_def case_prod_unfold)

lemma Edge_validate_rejects:
  assumes "Edge_Name e = None \<or> badVID g (Edge_SrcVID e) \<or> badVID g (Edge_DstVID e)
     \<or> badRank (Edge_Rank e)"
  shows "returnsError (Edge_validateAndReset g b e)"
proof (cases "Edge_Name e")
  case None
  then show ?thesis by (simp add: Edge_validateAndReset_def)
next
  case (Some name)
  define S where "S = (case Edge_SrcVID e of
                     Some vid \<Rightarrow> VID_validateAndReset g vid 0
                   | None \<Rightarrow> Inr \<lparr>VID_Index = Some 0, VID_Function = None\<rparr>)"
  define D where "D = (case Edge_DstVID e of
                     Some vid \<Rightarrow> VID_validateAndReset g vid 1
                   | None \<Rightarrow> Inr \<lparr>VID_Index = Some 1, VID_Function = None\<rparr>)"
  define R where "R = (case Edge_Rank e of
                     Some r \<Rightarrow> andThen (Rank_validateAndReset r 2) (\<lambda>r'. Inr (Some r', 3::int))
                   | None \<Rightarrow>
                       if Edge_WithRanking e = Some True
                       then Inr (Some \<lparr>Rank_Index = Some 2\<rparr>, 3)
                       else Inr (None, 2))"
  have S: "returns S" and D: "returns D"
    unfolding S_def D_def by (rule VID_step_returns)+
  have bad: "badVID g (Edge_SrcVID e) \<Longrightarrow> returnsError S"
    "badVID g (Edge_DstVID e) \<Longrightarrow> returnsError D"
    "badRank (Edge_Rank e) \<Longrightarrow> returnsError R"
    unfolding S_def D_def R_def by (rule VID_step_bad VID_step_bad Rank_step_bad; assumption)+
  have "Edge_validateAndReset g b e =
      andThen S (\<lambda>src. andThen D (\<lambda>dst. andThen R (\<lambda>rs.
        andThen (validateProps g b (snd rs) (Edge_Props e)) (\<lambda>ps.
          Inr (e\<lparr>Edge_SrcVID := Some src, Edge_DstVID := Some dst,
                 Edge_Rank := fst rs, Edge_Props := ps\<rparr>)))))"
    by (simp add: Edge_validate_steps Some S_def D_def R_def)
  with assms Some S D bad show ?thesis
    by (auto simp: returnsError_andThen returns_cases)
qed

lemma Edge_validate_unknown:
  assumes "typedAndIndexed (Edge_Props e)" and "Some p \<in> set (Edge_Props e)"
    and "unknownType g b p"
  shows "returnsError (Edge_validateAndReset g b e)"
proof (cases "Edge_Name e")
  case None
  then show ?thesis by (simp add: Edge_validateAndReset_def)
next
  case (Some name)
  define S where "S = (case Edge_SrcVID e of
                     Some vid \<Rightarrow> VID_validateAndReset g vid 0
                   | None \<Rightarrow> Inr \<lparr>VID_Index = Some 0, VID_Function = None\<rparr>)"
  define D where "D = (case Edge_DstVID e of
                     Some vid \<Rightarrow> VID_validateAndReset g vid 1
                   | None \<Rightarrow> Inr \<lparr>VID_Index = Some 1, VID_Function = None\<rparr>)"
  define R where "R = (case Edge_Rank e of
                     Some r \<Rightarrow> andThen (Rank_validateAndReset r 2) (\<lambda>r'. Inr (Some r', 3::int))
                   | None \<Rightarrow>
                       if Edge_WithRanking e = Some True
                       then Inr (Some \<lparr>Rank_Index = Some 2\<rparr>, 3)
                       else Inr (None, 2))"
  have S: "returns S" and D: "returns D"
    unfolding S_def D_def by (rule VID_step_returns)+
  have R: "returns R"
    unfolding R_def by (rule Rank_step_returns)
  have props: "returnsError (validateProps g b k (Edge_Props e))" for k
    using assms by (rule validateProps_unknown)
  have "Edge_validateAndReset g b e =
      andThen S (\<lambda>src. andThen D (\<lambda>dst. andThen R (\<lambda>rs.
        andThen (validateProps g b (snd rs) (Edge_Props e)) (\<lambda>ps.
          Inr (e\<lparr>Edge_SrcVID := Some src, Edge_DstVID := Some dst,
                 Edge_Rank := fst rs, Edge_Props := ps\<rparr>)))))"
    by (simp add: Edge_validate_steps Some S_def D_def R_def)
  with S D R props show ?thesis
    by (auto simp: returnsError_andThen returns_cases)
qed

lemma Vertex_validate_rejects:
  assumes "badVID g (Vertex_VID v)"
  shows "returnsError (Vertex_validateAndReset g b v)"
  unfolding Vertex_validateAndReset_def
  using VID_step_bad [OF assms, where d = 0 and d' = 0]
  by (simp add: returnsError_andThen)

lemma Vertex_validate_unknown:
  assumes "typedAndIndexed (tagProps (Vertex_Tags v))"
    and "Some p \<in> set (tagProps (Vertex_Tags v))" and "unknownType g b p"
  shows "returnsError (Vertex_validateAndReset g b v)"
proof -
  have "returnsError (validateTags g b 1 (Vertex_Tags v))"
    using assms by (rule validateTags_unknown)
  with VID_step_returns [where vp = "Vertex_VID v" and d = 0 and d' = 0] show ?thesis
    unfolding Vertex_validateAndReset_def
    by (auto simp: returnsError_andThen returns_cases)
qed

text \<open>
  C5, as amended. For a schema with a type discriminator, resolution returns an error
  when the discriminator is neither edge nor vertex; when the edge has no name; when a
  VID has a negative index or a generator other than none, hash and uuid; when the rank
  has a negative index; and, provided every property has a type and no negative index,
  when a property has an unknown type. A negative index of a property is not returned
  as an error: it goes to \<^verbatim>\<open>logger.Fatalf\<close>, which ends the process.
\<close>

theorem resolution_rejects:
  assumes "Schema_Type s = Some ty"
  shows "(strings_ToLower g ty \<noteq> ''edge'' \<and> strings_ToLower g ty \<noteq> ''vertex'' \<longrightarrow>
            Schema_validateAndReset g b s = Inl (Error (ErrSchemaType ty)))
       \<and> (strings_ToLower g ty = ''edge'' \<and> Schema_Edge s = Some e \<longrightarrow>
            (Edge_Name e = None \<or> badVID g (Edge_SrcVID e) \<or> badVID g (Edge_DstVID e)
               \<or> badRank (Edge_Rank e) \<longrightarrow>
             returnsError (Schema_validateAndReset g b s))
            \<and> (typedAndIndexed (Edge_Props e) \<and> Some p \<in> set (Edge_Props e)
                 \<and> unknownType g b p \<longrightarrow>
               returnsError (Schema_validateAndReset g b s)))
       \<and> (strings_ToLower g ty = ''vertex'' \<and> Schema_Vertex s = Some v \<longrightarrow>
            (badVID g (Vertex_VID v) \<longrightarrow> returnsError (Schema_validateAndReset g b s))
            \<and> (typedAndIndexed (tagProps (Vertex_Tags v))
                 \<and> Some p \<in> set (tagProps (Vertex_Tags v)) \<and> unknownType g b p \<longrightarrow>
               returnsError (Schema_validateAndReset g b s)))
       \<and> (unknownType g b q \<longrightarrow> returnsError (Prop_validateAndReset g b q k))
       \<and> (Prop_Type q = Some qty \<and> IsValidType b (strings_ToLower g qty)
            \<and> Prop_Index q = Some i \<and> i < 0 \<and> Prop_Name q = Some name \<longrightarrow>
          Prop_validateAndReset g b q k
            = Inl (Fatal (FatalPropIndex i name (strings_ToLower g qty))))"
proof (intro conjI impI)
  assume "strings_ToLower g ty \<noteq> ''edge'' \<and> strings_ToLower g ty \<noteq> ''vertex''"
  then show "Schema_validateAndReset g b s = Inl (Error (ErrSchemaType ty))"
    using assms by (simp add: Schema_validateAndReset_def)
next
  assume edge: "strings_ToLower g ty = ''edge'' \<and> Schema_Edge s = Some e"
  then have schema: "Schema_validateAndReset g b s =
      andThen (Edge_validateAndReset g b e) (\<lambda>e'. Inr (s\<lparr>Schema_Edge := Some e'\<rparr>))"
    using assms by (simp add: Schema_validateAndReset_def)
  {
    assume "Edge_Name e = None \<or> badVID g (Edge_SrcVID e) \<or> badVID g (Edge_DstVID e)
               \<or> badRank (Edge_Rank e)"
    then show "returnsError (Schema_validateAndReset g b s)"
      by (simp add: schema returnsError_andThen Edge_validate_rejects)
  next
    assume "typedAndIndexed (Edge_Props e) \<and> Some p \<in> set (Edge_Props e) \<and> unknownType g b p"
    then show "returnsError (Schema_validateAndReset g b s)"
      using Edge_validate_unknown [of e p g b] by (simp add: schema returnsError_andThen)
  }
next
  assume vertex: "strings_ToLower g ty = ''vertex'' \<and> Schema_Vertex s = Some v"
  then have schema: "Schema_validateAndReset g b s =
      andThen (Vertex_validateAndReset g b v) (\<lambda>v'. Inr (s\<lparr>Schema_Vertex := Some v'\<rparr>))"
    using assms by (simp add: Schema_validateAndReset_def)
  {
    assume "badVID g (Vertex_VID v)"
    then show "returnsError (Schema_validateAndReset g b s)"
      by (simp add: schema returnsError_andThen Vertex_validate_rejects)
  next
    assume "typedAndIndexed (tagProps (Vertex_Tags v))
                 \<and> Some p \<in> set (tagProps (Vertex_Tags v)) \<and> unknownType g b p"
    then show "returnsError (Schema_validateAndReset g b s)"
      using Vertex_validate_unknown [of v p g b] by (simp add: schema returnsError_andThen)
  }
next
  assume "unknownType g b q"
  then show "returnsError (Prop_validateAndReset g b q k)"
    by (rule Prop_validate_unknown)
next
  assume "Prop_Type q = Some qty \<and> IsValidType b (strings_ToLower g qty)
            \<and> Prop_Index q = Some i \<and> i < 0 \<and> Prop_Name q = Some name"
  then show "Prop_validateAndReset g b q k
            = Inl (Fatal (FatalPropIndex i name (strings_ToLower g qty)))"
    by (simp add: Prop_validateAndReset_def)
qed

text \<open>
  As the claim is written, each of these is returned as an error. A negative property
  index ends the process, and a schema with no discriminator makes resolution panic.
\<close>

theorem negative_prop_index_is_fatal:
  "Schema_validateAndReset scenario_release scenario_base
      \<lparr> Schema_Type = Some ''edge'',
        Schema_Edge =
          Some (scenario_edge_raw
                  \<lparr>Edge_Props :=
                     [Some \<lparr> Prop_Name = Some ''likeness'', Prop_Type = Some ''double'',
                             Prop_Index = Some (- 1) \<rparr>]\<rparr>),
        Schema_Vertex = None \<rparr>
     = Inl (Fatal (FatalPropIndex (- 1) ''likeness'' ''double''))
   \<and> Schema_validateAndReset scenario_release scenario_base
      \<lparr> Schema_Type = None, Schema_Edge = Some scenario_edge_raw, Schema_Vertex = None \<rparr>
     = Inl (Panic NilDereference)"
  by (simp add: resolution_defs scenario_defs string_defs)

text \<open>
  An unknown discriminator, an unsupported generator, an unknown property type and a
  negative property index.
\<close>

theorem resolution_rejects_witness:
  "Schema_validateAndReset scenario_release scenario_base
      \<lparr> Schema_Type = Some ''node'', Schema_Edge = None, Schema_Vertex = None \<rparr>
     = Inl (Error (ErrSchemaType ''node''))
   \<and> returnsError
       (Schema_validateAndReset scenario_release scenario_base
          \<lparr> Schema_Type = Some ''edge'',
            Schema_Edge =
              Some (scenario_edge_raw
                      \<lparr>Edge_SrcVID :=
                         Some \<lparr> VID_Index = None, VID_Function = Some ''md5'' \<rparr>\<rparr>),
            Schema_Vertex = None \<rparr>)
   \<and> returnsError
       (Schema_validateAndReset scenario_release scenario_base
          \<lparr> Schema_Type = Some ''vertex'', Schema_Edge = None,
            Schema_Vertex =
              Some \<lparr> Vertex_VID = None,
                      Vertex_Tags =
                        [Some \<lparr> Tag_Name = Some ''student'',
                                Tag_Props =
                                  [Some \<lparr> Prop_Name = Some ''name'',
                                          Prop_Type = Some ''text'',
                                          Prop_Index = None \<rparr>] \<rparr>] \<rparr> \<rparr>)
   \<and> Prop_validateAndReset scenario_release scenario_base
        \<lparr> Prop_Name = Some ''likeness'', Prop_Type = Some ''double'',
          Prop_Index = Some (- 1) \<rparr> 3
     = Inl (Fatal (FatalPropIndex (- 1) ''likeness'' ''double''))"
proof -
  let ?text = "\<lparr> Prop_Name = Some ''name'', Prop_Type = Some ''text'', Prop_Index = None \<rparr>"
  let ?v = "\<lparr> Vertex_VID = None,
              Vertex_Tags =
                [Some \<lparr> Tag_Name = Some ''student'', Tag_Props = [Some ?text] \<rparr>] \<rparr>"
  let ?e = "scenario_edge_raw
              \<lparr>Edge_SrcVID := Some \<lparr> VID_Index = None, VID_Function = Some ''md5'' \<rparr>\<rparr>"
  let ?neg = "\<lparr> Prop_Name = Some ''likeness'', Prop_Type = Some ''double'',
                Prop_Index = Some (- 1) \<rparr>"
  have "Schema_validateAndReset scenario_release scenario_base
          \<lparr> Schema_Type = Some ''node'', Schema_Edge = None, Schema_Vertex = None \<rparr>
        = Inl (Error (ErrSchemaType ''node''))"
    using resolution_rejects
            [of "\<lparr> Schema_Type = Some ''node'', Schema_Edge = None, Schema_Vertex = None \<rparr>"
                "''node''" scenario_release scenario_base]
    by (simp add: string_defs)
  moreover have "returnsError
       (Schema_validateAndReset scenario_release scenario_base
          \<lparr> Schema_Type = Some ''edge'', Schema_Edge = Some ?e, Schema_Vertex = None \<rparr>)"
    using resolution_rejects
            [of "\<lparr> Schema_Type = Some ''edge'', Schema_Edge = Some ?e, Schema_Vertex = None \<rparr>"
                "''edge''" scenario_release scenario_base ?e]
    by (simp add: string_defs badVID_def)
  moreover have "returnsError
       (Schema_validateAndReset scenario_release scenario_base
          \<lparr> Schema_Type = Some ''vertex'', Schema_Edge = None, Schema_Vertex = Some ?v \<rparr>)"
    using resolution_rejects
            [of "\<lparr> Schema_Type = Some ''vertex'', Schema_Edge = None, Schema_Vertex = Some ?v \<rparr>"
                "''vertex''" scenario_release scenario_base _ ?text ?v]
    by (simp add: string_defs typedAndIndexed_def unknownType_def scenario_defs)
  moreover have "Prop_validateAndReset scenario_release scenario_base ?neg 3
        = Inl (Fatal (FatalPropIndex (- 1) ''likeness'' ''double''))"
    using resolution_rejects
            [of "\<lparr> Schema_Type = Some ''node'', Schema_Edge = None, Schema_Vertex = None \<rparr>"
                "''node''" scenario_release scenario_base _ _ _ ?neg 3 "''double''" "- 1"
                "''likeness''"]
    by (simp add: string_defs scenario_defs)
  ultimately show ?thesis by simp
qed

section \<open>Defaults of the configuration\<close>

lemma resolvePath_returns: "returns (resolvePath h b p dir)"
  by (simp add: resolvePath_def Let_def)

lemma defaultFailDataPath_returns: "returns (defaultFailDataPath h p)"
  by (simp add: defaultFailDataPath_def split: sum.splits)

lemma CSVConfig_validate_returns: "returns (CSVConfig_validateAndReset c)"
  by (simp add: CSVConfig_validateAndReset_def)

lemma File_validate_no_schema:
  assumes "File_Schema f = None" and "File_Type f \<noteq> None"
  shows "returnsError (File_validateAndReset g h b f dir)"
proof (cases "File_Path f")
  case None
  then show ?thesis by (simp add: File_validateAndReset_def)
next
  case (Some p)
  from assms(2) obtain ty where ty: "File_Type f = Some ty" by auto
  define F where "F = (\<lambda>p. case File_FailDataPath f of
                     Some d \<Rightarrow> Inr d
                   | None \<Rightarrow> defaultFailDataPath h p)"
  define C where "C = (case File_CSV f of
                     None \<Rightarrow> Inr None
                   | Some c \<Rightarrow> andThen (CSVConfig_validateAndReset c) (\<lambda>c'. Inr (Some c')))"
  have F: "returns (F p)" for p
    unfolding F_def by (simp add: defaultFailDataPath_returns split: option.splits)
  have C: "returns C"
    unfolding C_def
    by (auto split: option.splits intro!: returns_andThen CSVConfig_validate_returns)
  have "File_validateAndReset g h b f dir =
      andThen (resolvePath h b p dir) (\<lambda>p. andThen (F p) (\<lambda>failDataPath.
        if strings_ToLower g ty \<noteq> ''csv'' then Inl (Error (ErrFileType ty))
        else andThen C (\<lambda>csv. Inl (Error ErrNoFileSchema))))"
    by (simp add: File_validateAndReset_def Some ty assms(1) F_def C_def)
  with resolvePath_returns [of h b p dir] F C show ?thesis
    by (auto simp: returnsError_andThen returns_cases)
qed

lemma File_validate_success:
  assumes "File_validateAndReset g h b f dir = Inr f'"
  shows "File_BatchSize f' = resetTo (File_BatchSize f) 128
       \<and> File_InOrder f' = resetTo (File_InOrder f) False
       \<and> File_Limit f' = File_Limit f \<and> File_Type f' = File_Type f
       \<and> (\<forall>d. File_FailDataPath f = Some d \<longrightarrow> File_FailDataPath f' = Some d)"
proof (cases "File_Path f")
  case None
  with assms show ?thesis by (simp add: File_validateAndReset_def)
next
  case path: (Some p)
  show ?thesis
  proof (cases "File_Type f")
    case None
    with assms path show ?thesis
      by (simp add: File_validateAndReset_def andThen_eq_Inr)
  next
    case type: (Some ty)
    show ?thesis
    proof (cases "File_Schema f")
      case None
      with assms path type show ?thesis
        by (simp add: File_validateAndReset_def andThen_eq_Inr split: if_splits)
    next
      case (Some s)
      with assms path type obtain p1 fd csv s' where
        f': "f' = f\<lparr>File_Paths := PathFileList b p1, File_Path := Some p1,
                      File_FailDataPath := Some fd,
                      File_BatchSize := resetTo (File_BatchSize f) 128,
                      File_InOrder := resetTo (File_InOrder f) False,
                      File_CSV := csv, File_Schema := Some s'\<rparr>"
        and fd: "(case File_FailDataPath f of
                    Some d \<Rightarrow> Inr d
                  | None \<Rightarrow> defaultFailDataPath h p1) = Inr fd"
        by (auto simp: File_validateAndReset_def andThen_eq_Inr split: if_splits)
      from fd show ?thesis
        by (auto simp: f')
    qed
  qed
qed

lemma validateFiles_success:
  "validateFiles g h b fs dir = Inr fs' \<Longrightarrow>
   length fs' = length fs \<and>
   (\<forall>k < length fs. \<exists>f f'. fs ! k = Some f \<and> fs' ! k = Some f' \<and>
                             File_validateAndReset g h b f dir = Inr f')"
proof (induction fs arbitrary: fs')
  case Nil
  then show ?case by simp
next
  case (Cons fp fs)
  from Cons.prems obtain f f' gs where
    fp: "fp = Some f" and f': "File_validateAndReset g h b f dir = Inr f'"
    and gs: "validateFiles g h b fs dir = Inr gs" and fs': "fs' = Some f' # gs"
    by (cases fp) (auto simp: andThen_eq_Inr)
  from Cons.IH [OF gs] fp f' show ?case
    by (auto simp: fs' nth_Cons split: nat.splits)
qed

lemma validateFiles_error:
  "validateFiles g h b fs dir = Inr fs' \<Longrightarrow> returnsError (File_validateAndReset g h b f dir) \<Longrightarrow>
   returnsError (validateFiles g h b (fs @ Some f # gs) dir)"
proof (induction fs arbitrary: fs')
  case Nil
  then show ?case by (simp add: returnsError_andThen)
next
  case (Cons fp fs)
  from Cons.prems(1) obtain x x' hs where
    "fp = Some x" "File_validateAndReset g h b x dir = Inr x'"
    "validateFiles g h b fs dir = Inr hs"
    by (cases fp) (auto simp: andThen_eq_Inr)
  with Cons.IH [OF _ Cons.prems(2)] show ?case
    by (simp add: returnsError_andThen)
qed

lemma Settings_validate_returns: "returns (NebulaClientSettings_validateAndReset n)"
  by (simp add: NebulaClientSettings_validateAndReset_def
        NebulaClientConnection_validateAndReset_def split: option.splits)

lemma Config_validate_steps:
  "YAMLConfig_ValidateAndReset g h b c dir = Inr c' \<Longrightarrow>
   \<exists>n n' cn fs.
     Config_NebulaClientSettings c = Some n \<and> Settings_Connection n = Some cn
     \<and> n' = n\<lparr>Settings_Retry := resetTo (Settings_Retry n) 1,
               Settings_Concurrency := resetTo (Settings_Concurrency n) 10,
               Settings_ChannelBufferSize := resetTo (Settings_ChannelBufferSize n) 128,
               Settings_Connection :=
                 Some (cn\<lparr>Connection_Address := resetTo (Connection_Address cn) ''127.0.0.1:3699'',
                           Connection_User := resetTo (Connection_User cn) ''user'',
                           Connection_Password := resetTo (Connection_Password cn) ''password''\<rparr>)\<rparr>
     \<and> validateFiles g h b (Config_Files c) dir = Inr fs
     \<and> c' = c\<lparr>Config_NebulaClientSettings := Some n',
               Config_LogPath := resetTo (Config_LogPath c) ''/tmp/nebula-importer.log'',
               Config_Files := fs\<rparr>"
  by (auto simp: YAMLConfig_ValidateAndReset_def NebulaClientSettings_validateAndReset_def
                 NebulaClientConnection_validateAndReset_def andThen_eq_Inr
           split: option.splits if_splits)

text \<open>
  C10, as amended. When validation succeeds, each of retry, concurrency,
  channelBufferSize, address, user, password, logPath and, for every file, batchSize and
  inOrder has the value it was given, or its default when it was absent: 1, 10, 128,
  \<^verbatim>\<open>127.0.0.1:3699\<close>, \<^verbatim>\<open>user\<close>, \<^verbatim>\<open>password\<close>, \<^verbatim>\<open>/tmp/nebula-importer.log\<close>, 128
  and false. Validation returns an error when clientSettings, space, connection or the
  list of files is absent. The validation of a file returns an error when its path is
  absent, and when its schema is absent and its type is present. When the validation of
  a file returns an error and the files before it validate, the whole validation returns
  an error.
\<close>

theorem configuration_defaults:
  "(YAMLConfig_ValidateAndReset g h b c dir = Inr c' \<longrightarrow>
      Config_LogPath c' = resetTo (Config_LogPath c) ''/tmp/nebula-importer.log''
      \<and> (\<exists>n n' cn cn'.
            Config_NebulaClientSettings c = Some n \<and> Config_NebulaClientSettings c' = Some n'
            \<and> Settings_Retry n' = resetTo (Settings_Retry n) 1
            \<and> Settings_Concurrency n' = resetTo (Settings_Concurrency n) 10
            \<and> Settings_ChannelBufferSize n' = resetTo (Settings_ChannelBufferSize n) 128
            \<and> Settings_Space n' = Settings_Space n
            \<and> Settings_Connection n = Some cn \<and> Settings_Connection n' = Some cn'
            \<and> Connection_Address cn' = resetTo (Connection_Address cn) ''127.0.0.1:3699''
            \<and> Connection_User cn' = resetTo (Connection_User cn) ''user''
            \<and> Connection_Password cn' = resetTo (Connection_Password cn) ''password'')
      \<and> length (Config_Files c') = length (Config_Files c)
      \<and> (\<forall>k < length (Config_Files c).
            \<exists>f f'. Config_Files c ! k = Some f \<and> Config_Files c' ! k = Some f'
                   \<and> File_BatchSize f' = resetTo (File_BatchSize f) 128
                   \<and> File_InOrder f' = resetTo (File_InOrder f) False))
   \<and> (Config_NebulaClientSettings c = None
        \<or> (\<exists>n. Config_NebulaClientSettings c = Some n
                \<and> (Settings_Space n = None \<or> Settings_Connection n = None))
        \<or> Config_Files c = [] \<longrightarrow>
      returnsError (YAMLConfig_ValidateAndReset g h b c dir))
   \<and> (File_Path f = None \<longrightarrow> File_validateAndReset g h b f dir = Inl (Error ErrNoFilePath))
   \<and> (File_Schema f = None \<and> File_Type f \<noteq> None \<longrightarrow>
      returnsError (File_validateAndReset g h b f dir))
   \<and> (Config_Files c = fs @ Some f # gs \<and> validateFiles g h b fs dir = Inr fs'
        \<and> returnsError (File_validateAndReset g h b f dir) \<longrightarrow>
      returnsError (YAMLConfig_ValidateAndReset g h b c dir))"
proof (intro conjI impI)
  assume ok: "YAMLConfig_ValidateAndReset g h b c dir = Inr c'"
  from Config_validate_steps [OF ok] obtain n n' cn fs where
    n: "Config_NebulaClientSettings c = Some n" and cn: "Settings_Connection n = Some cn"
    and n': "n' = n\<lparr>Settings_Retry := resetTo (Settings_Retry n) 1,
               Settings_Concurrency := resetTo (Settings_Concurrency n) 10,
               Settings_ChannelBufferSize := resetTo (Settings_ChannelBufferSize n) 128,
               Settings_Connection :=
                 Some (cn\<lparr>Connection_Address := resetTo (Connection_Address cn) ''127.0.0.1:3699'',
                           Connection_User := resetTo (Connection_User cn) ''user'',
                           Connection_Password := resetTo (Connection_Password cn) ''password''\<rparr>)\<rparr>"
    and fs: "validateFiles g h b (Config_Files c) dir = Inr fs"
    and c': "c' = c\<lparr>Config_NebulaClientSettings := Some n',
               Config_LogPath := resetTo (Config_LogPath c) ''/tmp/nebula-importer.log'',
               Config_Files := fs\<rparr>"
    by blast
  show "Config_LogPath c' = resetTo (Config_LogPath c) ''/tmp/nebula-importer.log''"
    by (simp add: c')
  show "\<exists>n n' cn cn'.
            Config_NebulaClientSettings c = Some n \<and> Config_NebulaClientSettings c' = Some n'
            \<and> Settings_Retry n' = resetTo (Settings_Retry n) 1
            \<and> Settings_Concurrency n' = resetTo (Settings_Concurrency n) 10
            \<and> Settings_ChannelBufferSize n' = resetTo (Settings_ChannelBufferSize n) 128
            \<and> Settings_Space n' = Settings_Space n
            \<and> Settings_Connection n = Some cn \<and> Settings_Connection n' = Some cn'
            \<and> Connection_Address cn' = resetTo (Connection_Address cn) ''127.0.0.1:3699''
            \<and> Connection_User cn' = resetTo (Connection_User cn) ''user''
            \<and> Connection_Password cn' = resetTo (Connection_Password cn) ''password''"
    by (simp add: c' n n' cn)
  show "length (Config_Files c') = length (Config_Files c)"
    using validateFiles_success [OF fs] by (simp add: c')
  show "\<forall>k < length (Config_Files c).
            \<exists>f f'. Config_Files c ! k = Some f \<and> Config_Files c' ! k = Some f'
                   \<and> File_BatchSize f' = resetTo (File_BatchSize f) 128
                   \<and> File_InOrder f' = resetTo (File_InOrder f) False"
  proof (intro allI impI)
    fix k
    assume "k < length (Config_Files c)"
    with validateFiles_success [OF fs] obtain x x' where
      "Config_Files c ! k = Some x" "fs ! k = Some x'"
      "File_validateAndReset g h b x dir = Inr x'"
      by blast
    then show "\<exists>f f'. Config_Files c ! k = Some f \<and> Config_Files c' ! k = Some f'
                   \<and> File_BatchSize f' = resetTo (File_BatchSize f) 128
                   \<and> File_InOrder f' = resetTo (File_InOrder f) False"
      using File_validate_success [of g h b x dir x'] by (simp add: c')
  qed
next
  assume "Config_NebulaClientSettings c = None
        \<or> (\<exists>n. Config_NebulaClientSettings c = Some n
                \<and> (Settings_Space n = None \<or> Settings_Connection n = None))
        \<or> Config_Files c = []"
  then consider "Config_NebulaClientSettings c = None"
    | n where "Config_NebulaClientSettings c = Some n"
        "Settings_Space n = None \<or> Settings_Connection n = None"
    | n where "Config_NebulaClientSettings c = Some n" "Config_Files c = []"
    by (cases "Config_NebulaClientSettings c") auto
  then show "returnsError (YAMLConfig_ValidateAndReset g h b c dir)"
  proof cases
    case 1
    then show ?thesis by (simp add: YAMLConfig_ValidateAndReset_def)
  next
    case 2
    then have "returnsError (NebulaClientSettings_validateAndReset n)"
      by (auto simp: NebulaClientSettings_validateAndReset_def split: option.splits)
    with 2 show ?thesis
      by (simp add: YAMLConfig_ValidateAndReset_def returnsError_andThen)
  next
    case 3
    with Settings_validate_returns [of n, unfolded returns_cases] show ?thesis
      by (auto simp: YAMLConfig_ValidateAndReset_def returnsError_andThen)
  qed
next
  assume "File_Path f = None"
  then show "File_validateAndReset g h b f dir = Inl (Error ErrNoFilePath)"
    by (simp add: File_validateAndReset_def)
next
  assume "File_Schema f = None \<and> File_Type f \<noteq> None"
  then show "returnsError (File_validateAndReset g h b f dir)"
    using File_validate_no_schema [of f g h b dir] by simp
next
  assume a: "Config_Files c = fs @ Some f # gs \<and> validateFiles g h b fs dir = Inr fs'
        \<and> returnsError (File_validateAndReset g h b f dir)"
  then have "returnsError (validateFiles g h b (Config_Files c) dir)"
    using validateFiles_error [of g h b fs dir fs' f gs] by simp
  then show "returnsError (YAMLConfig_ValidateAndReset g h b c dir)"
    using Settings_validate_returns [unfolded returns_cases]
    by (auto simp: YAMLConfig_ValidateAndReset_def returnsError_andThen split: option.splits)
qed

text \<open>
  As the claim is written, an absent schema always gives an error and no setting that
  is present is overwritten. With the type absent too, validation panics before it looks
  at the schema; and a path that exists only under the directory of the configuration
  file is replaced by the joined path.
\<close>

theorem absent_type_panics_and_path_is_rewritten:
  "File_validateAndReset scenario_release scenario_host scenario_base
      (scenario_file\<lparr>File_Type := None, File_Schema := None\<rparr>) ''/data''
     = Inl (Panic NilDereference)
   \<and> File_validateAndReset scenario_release scenario_host scenario_base
        (scenario_file\<lparr>File_Path := Some ''student.csv''\<rparr>) ''/data''
     = Inr scenario_file_resolved
   \<and> File_Path scenario_file_resolved = Some ''/data/student.csv''"
  by (simp add: resolution_defs config_defs scenario_defs string_defs)

text \<open>
  The configuration of the scenarios, and the same with no files, with a file that has
  no path, and with a second file that has no schema.
\<close>

theorem configuration_defaults_witness:
  "YAMLConfig_ValidateAndReset scenario_release scenario_host scenario_base scenario_config
       ''/data''
     = Inr scenario_config_resolved
   \<and> Config_LogPath scenario_config_resolved = Some ''/tmp/nebula-importer.log''
   \<and> returnsError
       (YAMLConfig_ValidateAndReset scenario_release scenario_host scenario_base
          (scenario_config\<lparr>Config_Files := []\<rparr>) ''/data'')
   \<and> File_validateAndReset scenario_release scenario_host scenario_base
        (scenario_file\<lparr>File_Path := None\<rparr>) ''/data''
     = Inl (Error ErrNoFilePath)
   \<and> returnsError
       (File_validateAndReset scenario_release scenario_host scenario_base
          (scenario_file\<lparr>File_Schema := None\<rparr>) ''/data'')
   \<and> returnsError
       (YAMLConfig_ValidateAndReset scenario_release scenario_host scenario_base
          (scenario_config
             \<lparr>Config_Files := [Some scenario_file, Some (scenario_file\<lparr>File_Schema := None\<rparr>)]\<rparr>)
          ''/data'')"
proof -
  let ?g = scenario_release and ?h = scenario_host and ?b = scenario_base
  let ?nofiles = "scenario_config\<lparr>Config_Files := []\<rparr>"
  let ?nopath = "scenario_file\<lparr>File_Path := None\<rparr>"
  let ?noschema = "scenario_file\<lparr>File_Schema := None\<rparr>"
  let ?two = "scenario_config\<lparr>Config_Files := [Some scenario_file, Some ?noschema]\<rparr>"
  have ok: "YAMLConfig_ValidateAndReset ?g ?h ?b scenario_config ''/data''
      = Inr scenario_config_resolved"
    by (rule scenario_config_resolves)
  have log: "Config_LogPath scenario_config_resolved = Some ''/tmp/nebula-importer.log''"
    using configuration_defaults
            [of ?g ?h ?b scenario_config "''/data''" scenario_config_resolved] ok
    by (simp add: resetTo_def scenario_config_def)
  have nofiles: "returnsError (YAMLConfig_ValidateAndReset ?g ?h ?b ?nofiles ''/data'')"
    using configuration_defaults [of ?g ?h ?b ?nofiles "''/data''"] by simp
  have nopath: "File_validateAndReset ?g ?h ?b ?nopath ''/data'' = Inl (Error ErrNoFilePath)"
    using configuration_defaults [of ?g ?h ?b _ "''/data''" _ ?nopath] by simp
  have noschema: "returnsError (File_validateAndReset ?g ?h ?b ?noschema ''/data'')"
    using configuration_defaults [of ?g ?h ?b _ "''/data''" _ ?noschema]
    by (simp add: scenario_file_def)
  have first: "validateFiles ?g ?h ?b [Some scenario_file] ''/data''
      = Inr (Config_Files scenario_config_resolved)"
    by (simp add: resolution_defs config_defs scenario_defs string_defs)
  have two: "returnsError (YAMLConfig_ValidateAndReset ?g ?h ?b ?two ''/data'')"
    using configuration_defaults
            [of ?g ?h ?b ?two "''/data''" _ ?noschema "[Some scenario_file]" "[]"
                "Config_Files scenario_config_resolved"]
          noschema first
    by simp
  from ok log nofiles nopath noschema two show ?thesis by simp
qed

section \<open>What compiling reads\<close>

lemma Prop_FormatValue_conversions:
  "TryConvInt64 b1 = TryConvInt64 b2 \<Longrightarrow> TryConvDateTimestamp b1 = TryConvDateTimestamp b2 \<Longrightarrow>
   Prop_FormatValue g b1 p record = Prop_FormatValue g b2 p record"
  by (simp add: Prop_FormatValue_def split: option.splits sum.splits)

lemma formatProps_conversions:
  "TryConvInt64 b1 = TryConvInt64 b2 \<Longrightarrow> TryConvDateTimestamp b1 = TryConvDateTimestamp b2 \<Longrightarrow>
   formatProps g b1 ps record = formatProps g b2 ps record"
  by (induction ps)
     (simp_all add: Prop_FormatValue_conversions [of b1 b2]
               cong: option.case_cong sum.case_cong failure.case_cong)

lemma formatTags_conversions:
  "TryConvInt64 b1 = TryConvInt64 b2 \<Longrightarrow> TryConvDateTimestamp b1 = TryConvDateTimestamp b2 \<Longrightarrow>
   formatTags g b1 ts record = formatTags g b2 ts record"
  by (induction ts)
     (simp_all add: Tag_FormatValues_def formatProps_conversions [of b1 b2]
               cong: option.case_cong sum.case_cong)

lemma formatRows_conversions:
  "TryConvInt64 b1 = TryConvInt64 b2 \<Longrightarrow>
   formatRows b1 srcVID rank rows = formatRows b2 srcVID rank rows"
  by (induction rows) (simp_all add: formatRow_def Let_def split: sum.splits)

text \<open>
  Of package \<^verbatim>\<open>base\<close>, the two compilers read the two conversions and nothing
  else: two runs on the same schema and record give the same outcome whatever the file
  system and the table of types are at each run.
\<close>

theorem compile_reads_only_the_conversions:
  assumes "TryConvInt64 b1 = TryConvInt64 b2"
    and "TryConvDateTimestamp b1 = TryConvDateTimestamp b2"
  shows "Vertex_FormatValues g b1 v record = Vertex_FormatValues g b2 v record
       \<and> Edge_FormatValues g b1 e record = Edge_FormatValues g b2 e record"
  using assms
  by (simp add: Vertex_FormatValues_def Edge_FormatValues_def formatVID_def andThen_def
        formatTags_conversions [of b1 b2] formatRows_conversions [of b1 b2]
      split: option.splits sum.splits)

text \<open>The scenarios compiled with and without the file of the scenario machine.\<close>

theorem compile_reads_only_the_conversions_witness:
  "Vertex_FormatValues scenario_release (scenario_base\<lparr>PathExists := (\<lambda>path. False)\<rparr>)
      scenario_vertex [''101'', ''Mary'', ''19'']
     = Vertex_FormatValues scenario_release scenario_base scenario_vertex
         [''101'', ''Mary'', ''19'']
   \<and> Edge_FormatValues scenario_release (scenario_base\<lparr>PathExists := (\<lambda>path. False)\<rparr>)
        scenario_edge [''A'', ''5'', ''0'', ''7#9.5'']
     = Edge_FormatValues scenario_release scenario_base scenario_edge
         [''A'', ''5'', ''0'', ''7#9.5'']"
  using compile_reads_only_the_conversions
          [of "scenario_base\<lparr>PathExists := (\<lambda>path. False)\<rparr>" scenario_base
              scenario_release scenario_vertex "[''101'', ''Mary'', ''19'']" scenario_edge]
        compile_reads_only_the_conversions
          [of "scenario_base\<lparr>PathExists := (\<lambda>path. False)\<rparr>" scenario_base
              scenario_release scenario_vertex "[''A'', ''5'', ''0'', ''7#9.5'']" scenario_edge]
  by simp

end
